theory Spec2Isabelle
  imports Main "HOL-Library.Word"
begin

section \<open>Go values\<close>

text \<open>
  A byte slice is a list of 8-bit words. Where the code tests a slice against
  \<^verbatim>\<open>nil\<close> (the dictionary of a codec) the slice is a \<open>bytes option\<close>, \<open>None\<close> being
  the nil slice; everywhere else only the contents and the length of a slice are read and
  the nil slice is the empty list.
\<close>

type_synonym bytes = "8 word list"

text \<open>
  Go's \<^verbatim>\<open>int\<close> (on the 64-bit platforms) and \<^verbatim>\<open>int64\<close> are 64-bit two's complement
  integers whose arithmetic wraps around silently. They are modelled as \<open>int\<close> with the
  wrap-around written out: \<open>int64 k\<close> is the value a 64-bit variable holds after the
  mathematical result \<open>k\<close> was stored into it.
\<close>

definition int64 :: "int \<Rightarrow> int" where
  "int64 k = signed_take_bit 63 k"

text \<open>\<^verbatim>\<open>len(s)\<close>. The length of a slice always fits an \<^verbatim>\<open>int\<close>.\<close>

definition len :: "'a list \<Rightarrow> int" where
  "len s = int (length s)"

section \<open>The break-even computation\<close>

text \<open>
  \<^verbatim>\<open>comp.Compress(sample)\<close> is called in the analyzer as
  \<^verbatim>\<open>plain, _ := compNone.Compress(sample)\<close>: only the returned slice is read. A
  \<open>compress\<close> function stands for that first result of a \<^verbatim>\<open>*zstddict.Compressor\<close>;
  the section on the codec shows that it is a function of the sample alone, whatever the
  pool of the Compressor holds (\<open>Compress_ok\<close>). A Compressor whose engine cannot be
  built panics in \<^verbatim>\<open>Compress\<close>, and the analyzer with it: the functions below are the
  runs of the analyzer on working Compressors.
\<close>

type_synonym compress = "bytes \<Rightarrow> bytes"

text \<open>
  The body of the loop of \<^verbatim>\<open>calculateBreakeven\<close> up to the test
  (cmd/analyze/main.go, lines 150 to 153):
  \<^verbatim>\<open>
    plain, _ := compNone.Compress(sample)
    withDict, _ := compDict.Compress(sample)
    savings := len(plain) - len(withDict)
    cumulativeSavings += savings
  \<close>
\<close>

definition accumulate :: "compress \<Rightarrow> compress \<Rightarrow> int \<Rightarrow> bytes \<Rightarrow> int" where
  "accumulate compNone compDict cumulativeSavings sample =
     (let plain = compNone sample;
          withDict = compDict sample;
          savings = int64 (len plain - len withDict)
      in int64 (cumulativeSavings + savings))"

text \<open>
  The loop \<^verbatim>\<open>for i, sample := range samples\<close> of \<^verbatim>\<open>calculateBreakeven\<close>, from the
  state in which \<open>i\<close> messages have been processed: it returns \<open>i + 1\<close> at the first
  message after which \<^verbatim>\<open>cumulativeSavings >= dictCost\<close>, and \<open>-1\<close> when the slice
  is exhausted. The index of a slice element is below the length of the slice, so
  \<open>i + 1\<close> does not wrap.
\<close>

fun calculateBreakeven_loop ::
  "compress \<Rightarrow> compress \<Rightarrow> int \<Rightarrow> int \<Rightarrow> nat \<Rightarrow> bytes list \<Rightarrow> int" where
  "calculateBreakeven_loop compNone compDict dictCost cumulativeSavings i [] = - 1"
| "calculateBreakeven_loop compNone compDict dictCost cumulativeSavings i (sample # rest) =
     (let cumulativeSavings' = accumulate compNone compDict cumulativeSavings sample
      in if cumulativeSavings' \<ge> dictCost then int i + 1
         else calculateBreakeven_loop compNone compDict dictCost cumulativeSavings' (Suc i) rest)"

definition calculateBreakeven :: "bytes \<Rightarrow> bytes list \<Rightarrow> compress \<Rightarrow> compress \<Rightarrow> int" where
  "calculateBreakeven dict samples compNone compDict =
     (let dictCost = len dict;
          cumulativeSavings = 0
      in calculateBreakeven_loop compNone compDict dictCost cumulativeSavings 0 samples)"

text \<open>
  \<^verbatim>\<open>calculateBreakevenPoint\<close> of the realistic scenarios (lines 152 to 166 of the
  analyzer's file of realistic scenarios) is the same loop with other names:
  \<^verbatim>\<open>
    dictCost := len(dict)
    savings := 0
    for i, sample := range samples {
        plain, _ := compNone.Compress(sample)
        withDict, _ := compDict.Compress(sample)
        savings += len(plain) - len(withDict)
        if savings >= dictCost { return i + 1 }
    }
    return -1
  \<close>
\<close>

fun calculateBreakevenPoint_loop ::
  "compress \<Rightarrow> compress \<Rightarrow> int \<Rightarrow> int \<Rightarrow> nat \<Rightarrow> bytes list \<Rightarrow> int" where
  "calculateBreakevenPoint_loop compNone compDict dictCost savings i [] = - 1"
| "calculateBreakevenPoint_loop compNone compDict dictCost savings i (sample # rest) =
     (let plain = compNone sample;
          withDict = compDict sample;
          savings' = int64 (savings + int64 (len plain - len withDict))
      in if savings' \<ge> dictCost then int i + 1
         else calculateBreakevenPoint_loop compNone compDict dictCost savings' (Suc i) rest)"

definition calculateBreakevenPoint ::
  "bytes list \<Rightarrow> bytes \<Rightarrow> compress \<Rightarrow> compress \<Rightarrow> int" where
  "calculateBreakevenPoint samples dict compNone compDict =
     (let dictCost = len dict;
          savings = 0
      in calculateBreakevenPoint_loop compNone compDict dictCost savings 0 samples)"

text \<open>
  The specification's ledger: the cumulative signed savings over the first \<open>k\<close> messages,
  as a mathematical integer.
\<close>

definition spec_cumulativeSavings :: "compress \<Rightarrow> compress \<Rightarrow> bytes list \<Rightarrow> nat \<Rightarrow> int" where
  "spec_cumulativeSavings compNone compDict samples k =
     (\<Sum>sample\<leftarrow>take k samples. len (compNone sample) - len (compDict sample))"

text \<open>
  The sizes that a run adds up fit a 64-bit integer: the compressed outputs of all the
  messages together are shorter than \<open>2 ^ 63\<close> bytes.
\<close>

definition sizes_fit :: "compress \<Rightarrow> compress \<Rightarrow> bytes list \<Rightarrow> bool" where
  "sizes_fit compNone compDict samples =
     ((\<Sum>sample\<leftarrow>samples. len (compNone sample) + len (compDict sample)) < 2 ^ 63)"

section \<open>The running totals of the analyzer\<close>

text \<open>
  \<^verbatim>\<open>gzipBuf.Len()\<close> after \<^verbatim>\<open>gw.Write(sample); gw.Close()\<close> is the length of the gzip
  stream of the sample; gzip (the standard library's) is a parameter like the two
  Compressors.
\<close>

record totals =
  totalUncompressed :: int
  totalGzip :: int
  totalZstd :: int
  totalZstdDict :: int

text \<open>
  One iteration of the loop of \<^verbatim>\<open>main\<close> (cmd/analyze/main.go, lines 72 to 101) on
  the four \<^verbatim>\<open>int64\<close> totals; the progress report every 20 requests only prints.
  \<^verbatim>\<open>
    totalUncompressed += int64(len(sample))
    totalGzip += int64(gzipBuf.Len())
    compressed, _ := compNone.Compress(sample)
    totalZstd += int64(len(compressed))
    compressedDict, _ := compDict.Compress(sample)
    totalZstdDict += int64(len(compressedDict))
  \<close>
\<close>

definition main_loop_body :: "compress \<Rightarrow> compress \<Rightarrow> compress \<Rightarrow> totals \<Rightarrow> bytes \<Rightarrow> totals" where
  "main_loop_body gzip compNone compDict t sample =
     (let t1 = t\<lparr>totalUncompressed := int64 (totalUncompressed t + int64 (len sample))\<rparr>;
          gzipBuf = gzip sample;
          t2 = t1\<lparr>totalGzip := int64 (totalGzip t1 + int64 (len gzipBuf))\<rparr>;
          compressed = compNone sample;
          t3 = t2\<lparr>totalZstd := int64 (totalZstd t2 + int64 (len compressed))\<rparr>;
          compressedDict = compDict sample
      in t3\<lparr>totalZstdDict := int64 (totalZstdDict t3 + int64 (len compressedDict))\<rparr>)"

text \<open>The totals of \<^verbatim>\<open>main\<close> once the messages of \<open>testSamples\<close> have been processed.\<close>

definition main_totals :: "compress \<Rightarrow> compress \<Rightarrow> compress \<Rightarrow> bytes list \<Rightarrow> totals" where
  "main_totals gzip compNone compDict testSamples =
     foldl (main_loop_body gzip compNone compDict)
       \<lparr>totalUncompressed = 0, totalGzip = 0, totalZstd = 0, totalZstdDict = 0\<rparr> testSamples"

text \<open>
  The sizes that the analyzer adds up fit a 64-bit integer: the messages together, and
  their outputs under each of the three methods, are shorter than \<open>2 ^ 63\<close> bytes.
\<close>

definition totals_fit :: "compress \<Rightarrow> compress \<Rightarrow> compress \<Rightarrow> bytes list \<Rightarrow> bool" where
  "totals_fit gzip compNone compDict samples =
     ((\<Sum>sample\<leftarrow>samples. len sample) < 2 ^ 63 \<and>
      (\<Sum>sample\<leftarrow>samples. len (gzip sample)) < 2 ^ 63 \<and>
      (\<Sum>sample\<leftarrow>samples. len (compNone sample)) < 2 ^ 63 \<and>
      (\<Sum>sample\<leftarrow>samples. len (compDict sample)) < 2 ^ 63)"

text \<open>
  \<^verbatim>\<open>analyzeScenario\<close> (lines 83 to 100 of the file of realistic scenarios) keeps the same
  four totals under the names \<^verbatim>\<open>totalOrig\<close>, \<^verbatim>\<open>totalGzip\<close>, \<^verbatim>\<open>totalZstd\<close> and
  \<^verbatim>\<open>totalDict\<close>.
\<close>

record scenario_totals =
  totalOrig :: int
  totalGzip :: int
  totalZstd :: int
  totalDict :: int

definition analyzeScenario_loop_body ::
  "compress \<Rightarrow> compress \<Rightarrow> compress \<Rightarrow> scenario_totals \<Rightarrow> bytes \<Rightarrow> scenario_totals" where
  "analyzeScenario_loop_body gzip compNone compDict t sample =
     (let t1 = t\<lparr>totalOrig := int64 (totalOrig t + int64 (len sample))\<rparr>;
          gzipBuf = gzip sample;
          t2 = t1\<lparr>totalGzip := int64 (totalGzip t1 + int64 (len gzipBuf))\<rparr>;
          compressed = compNone sample;
          t3 = t2\<lparr>totalZstd := int64 (totalZstd t2 + int64 (len compressed))\<rparr>;
          compressedDict = compDict sample
      in t3\<lparr>totalDict := int64 (totalDict t3 + int64 (len compressedDict))\<rparr>)"

definition analyzeScenario_totals ::
  "compress \<Rightarrow> compress \<Rightarrow> compress \<Rightarrow> bytes list \<Rightarrow> scenario_totals" where
  "analyzeScenario_totals gzip compNone compDict samples =
     foldl (analyzeScenario_loop_body gzip compNone compDict)
       \<lparr>totalOrig = 0, totalGzip = 0, totalZstd = 0, totalDict = 0\<rparr> samples"

text \<open>The totals of \<^verbatim>\<open>analyzeScenario\<close> are those of \<^verbatim>\<open>main\<close> under other names.\<close>

definition as_scenario :: "totals \<Rightarrow> scenario_totals" where
  "as_scenario t =
     \<lparr>totalOrig = totalUncompressed t, totalGzip = totals.totalGzip t,
      totalZstd = totals.totalZstd t, totalDict = totalZstdDict t\<rparr>"

section \<open>The zstd engine and the pool\<close>

text \<open>
  The compression engine is the external package \<^verbatim>\<open>klauspost/compress/zstd\<close>. Its
  operations are the fields of a record, a parameter of everything below: \<open>'e\<close> and
  \<open>'d\<close> are the encoder and decoder objects (\<^verbatim>\<open>*zstd.Encoder\<close>, \<^verbatim>\<open>*zstd.Decoder\<close>),
  \<open>'w\<close> and \<open>'r\<close> the \<^verbatim>\<open>io.Writer\<close> and \<^verbatim>\<open>io.Reader\<close> a stream is bound to. A
  constructor returns an error or an engine; \<^verbatim>\<open>EncodeAll(src, dst)\<close> returns \<open>dst\<close>
  extended by a frame; \<^verbatim>\<open>DecodeAll(input, dst)\<close> returns a slice and an error;
  \<^verbatim>\<open>Reset\<close> and \<^verbatim>\<open>Read\<close> change the engine, so they return it.
\<close>

datatype error = EOF | Error string

datatype EOption = WithEncoderDict bytes | WithEncoderConcurrency int

datatype DOption = WithDecoderDicts bytes

record ('e, 'd, 'w, 'r) zstd =
  NewWriter :: "'w option \<Rightarrow> EOption list \<Rightarrow> error + 'e"
  EncodeAll :: "'e \<Rightarrow> bytes \<Rightarrow> bytes \<Rightarrow> bytes"
  Encoder_Reset :: "'e \<Rightarrow> 'w \<Rightarrow> 'e"
  NewReader :: "'r option \<Rightarrow> DOption list \<Rightarrow> error + 'd"
  DecodeAll :: "'d \<Rightarrow> bytes \<Rightarrow> bytes \<Rightarrow> bytes \<times> error option"
  Decoder_Reset :: "'d \<Rightarrow> 'r \<Rightarrow> 'd \<times> error option"
  Decoder_Read :: "'d \<Rightarrow> nat \<Rightarrow> 'd \<times> bytes \<times> error option"

text \<open>
  A value of type \<^verbatim>\<open>any\<close> that holds a \<^verbatim>\<open>*T\<close>: the nil interface, or an interface
  holding a pointer, which may itself be nil. \<^verbatim>\<open>return nil\<close> in a function of result
  type \<^verbatim>\<open>any\<close> yields the nil interface.
\<close>

datatype 'a any = NilInterface | Pointer "'a option"

text \<open>
  A call either returns its results or panics. The type assertion \<^verbatim>\<open>x.(*T)\<close> in its
  one-result form panics on the nil interface and yields the pointer otherwise.
\<close>

datatype 'a outcome = Panicked | Returned 'a

text \<open>
  \<^verbatim>\<open>sync.Pool\<close>: the idle items, with \<^verbatim>\<open>New\<close> passed in by the owner. \<^verbatim>\<open>Get\<close> removes
  an arbitrary item and returns it, or treats the pool as empty and returns the result of
  \<^verbatim>\<open>New\<close>; \<open>pick\<close> is the choice it makes, the index of an idle item or \<open>None\<close>.
  \<^verbatim>\<open>Put\<close> adds an item and ignores the nil interface.
\<close>

definition Pool_Get :: "'a any \<Rightarrow> 'a any list \<Rightarrow> nat option \<Rightarrow> 'a any \<times> 'a any list" where
  "Pool_Get new idle pick =
     (case pick of
        None \<Rightarrow> (new, idle)
      | Some k \<Rightarrow> if k < length idle then (idle ! k, take k idle @ drop (Suc k) idle)
                 else (new, idle))"

definition Pool_Put :: "'a any list \<Rightarrow> 'a any \<Rightarrow> 'a any list" where
  "Pool_Put idle x = (if x = NilInterface then idle else x # idle)"

text \<open>A pool miss: \<^verbatim>\<open>Get\<close> finds no idle item to hand out.\<close>

definition miss :: "'a any list \<Rightarrow> nat option \<Rightarrow> bool" where
  "miss idle pick = (case pick of None \<Rightarrow> True | Some k \<Rightarrow> length idle \<le> k)"

section \<open>The Compressor of package zstddict\<close>

record ('e, 'd) Compressor =
  dict :: "bytes option"
  encoderPool :: "'e any list"
  decoderPool :: "'d any list"

text \<open>
  The options that the \<^verbatim>\<open>New\<close> functions of the two pools pass to the constructors
  (\<^verbatim>\<open>New\<close>, lines 57 to 87): the dictionary when there is one, and nothing else.
\<close>

definition New_encoderOptions :: "bytes option \<Rightarrow> EOption list" where
  "New_encoderOptions dictionary = (case dictionary of Some d \<Rightarrow> [WithEncoderDict d] | None \<Rightarrow> [])"

definition New_decoderOptions :: "bytes option \<Rightarrow> DOption list" where
  "New_decoderOptions dictionary = (case dictionary of Some d \<Rightarrow> [WithDecoderDicts d] | None \<Rightarrow> [])"

text \<open>
  \<^verbatim>\<open>c.encoderPool.New\<close> and \<^verbatim>\<open>c.decoderPool.New\<close>: the closures read \<^verbatim>\<open>c.dict\<close>, build
  an engine on no stream, and return \<^verbatim>\<open>nil\<close> when the constructor fails.
\<close>

definition encoderPool_New :: "('e, 'd, 'w, 'r) zstd \<Rightarrow> ('e, 'd) Compressor \<Rightarrow> 'e any" where
  "encoderPool_New lib c =
     (case NewWriter lib None (New_encoderOptions (dict c)) of
        Inl err \<Rightarrow> NilInterface
      | Inr enc \<Rightarrow> Pointer (Some enc))"

definition decoderPool_New :: "('e, 'd, 'w, 'r) zstd \<Rightarrow> ('e, 'd) Compressor \<Rightarrow> 'd any" where
  "decoderPool_New lib c =
     (case NewReader lib None (New_decoderOptions (dict c)) of
        Inl err \<Rightarrow> NilInterface
      | Inr dec \<Rightarrow> Pointer (Some dec))"

text \<open>
  \<^verbatim>\<open>WithDictBytes\<close> stores the slice it is given, nil or not; \<^verbatim>\<open>WithDictFile\<close> stores
  the contents of the file, or fails with the error of \<^verbatim>\<open>os.ReadFile\<close>. \<^verbatim>\<open>New\<close>
  applies the options in order, stops at the first error, and starts with empty pools.
\<close>

datatype Option = WithDictBytes "bytes option" | WithDictFile string

fun apply_options ::
  "(string \<Rightarrow> error + bytes) \<Rightarrow> Option list \<Rightarrow> ('e, 'd) Compressor \<Rightarrow> error + ('e, 'd) Compressor"
  where
  "apply_options ReadFile [] c = Inr c"
| "apply_options ReadFile (WithDictBytes d # opts) c = apply_options ReadFile opts (c\<lparr>dict := d\<rparr>)"
| "apply_options ReadFile (WithDictFile path # opts) c =
     (case ReadFile path of
        Inl err \<Rightarrow> Inl err
      | Inr data \<Rightarrow> apply_options ReadFile opts (c\<lparr>dict := Some data\<rparr>))"

definition New :: "(string \<Rightarrow> error + bytes) \<Rightarrow> Option list \<Rightarrow> error + ('e, 'd) Compressor" where
  "New ReadFile opts =
     (case apply_options ReadFile opts \<lparr>dict = None, encoderPool = [], decoderPool = []\<rparr> of
        Inl err \<Rightarrow> Inl err
      | Inr c \<Rightarrow> Inr (c\<lparr>encoderPool := [], decoderPool := []\<rparr>))"

text \<open>
  \<^verbatim>\<open>Compress\<close> (lines 93 to 101):
  \<^verbatim>\<open>
    enc := c.encoderPool.Get().(*zstd.Encoder)
    if enc == nil {
        return nil, errors.New("failed to get encoder from pool")
    }
    defer c.encoderPool.Put(enc)
    return enc.EncodeAll(data, nil), nil
  \<close>
  The result is the outcome of the call and the Compressor with its pool as the call
  leaves it.
\<close>

definition Compress ::
  "('e, 'd, 'w, 'r) zstd \<Rightarrow> ('e, 'd) Compressor \<Rightarrow> nat option \<Rightarrow> bytes \<Rightarrow>
   (bytes \<times> error option) outcome \<times> ('e, 'd) Compressor" where
  "Compress lib c pick data =
     (case Pool_Get (encoderPool_New lib c) (encoderPool c) pick of
        (x, idle) \<Rightarrow>
          (case x of
             NilInterface \<Rightarrow> (Panicked, c\<lparr>encoderPool := idle\<rparr>)
           | Pointer None \<Rightarrow>
               (Returned ([], Some (Error ''failed to get encoder from pool'')),
                c\<lparr>encoderPool := idle\<rparr>)
           | Pointer (Some enc) \<Rightarrow>
               (Returned (EncodeAll lib enc data [], None),
                c\<lparr>encoderPool := Pool_Put idle (Pointer (Some enc))\<rparr>)))"

text \<open>
  \<^verbatim>\<open>Decompress\<close> (lines 115 to 123) is the same with the decoder pool and
  \<^verbatim>\<open>return dec.DecodeAll(data, nil)\<close>: what the engine returns, slice and error, is
  returned unchanged.
\<close>

definition Decompress ::
  "('e, 'd, 'w, 'r) zstd \<Rightarrow> ('e, 'd) Compressor \<Rightarrow> nat option \<Rightarrow> bytes \<Rightarrow>
   (bytes \<times> error option) outcome \<times> ('e, 'd) Compressor" where
  "Decompress lib c pick data =
     (case Pool_Get (decoderPool_New lib c) (decoderPool c) pick of
        (x, idle) \<Rightarrow>
          (case x of
             NilInterface \<Rightarrow> (Panicked, c\<lparr>decoderPool := idle\<rparr>)
           | Pointer None \<Rightarrow>
               (Returned ([], Some (Error ''failed to get decoder from pool'')),
                c\<lparr>decoderPool := idle\<rparr>)
           | Pointer (Some dec) \<Rightarrow>
               (Returned (DecodeAll lib dec data []),
                c\<lparr>decoderPool := Pool_Put idle (Pointer (Some dec))\<rparr>)))"

text \<open>
  The pools of a Compressor hold nothing but what its own \<^verbatim>\<open>New\<close> functions return:
  engines built for the dictionary of this Compressor.
\<close>

definition pools_ok :: "('e, 'd, 'w, 'r) zstd \<Rightarrow> ('e, 'd) Compressor \<Rightarrow> bool" where
  "pools_ok lib c =
     (list_all (\<lambda>x. x = encoderPool_New lib c) (encoderPool c) \<and>
      list_all (\<lambda>x. x = decoderPool_New lib c) (decoderPool c))"

text \<open>A call failed: it panicked, or it returned an error.\<close>

fun failed :: "('a \<times> error option) outcome \<Rightarrow> bool" where
  "failed Panicked = True"
| "failed (Returned (r, err)) = (err \<noteq> None)"

section \<open>The compressor of package grpccodec\<close>

text \<open>
  \<^verbatim>\<open>Zstd\<close> has the fields of the Compressor and a name. \<^verbatim>\<open>NewZstd\<close> and
  \<^verbatim>\<open>NewZstdDict\<close> fill them in and leave both pools empty.
\<close>

record ('e, 'd) Zstd =
  name :: string
  dict :: "bytes option"
  encoderPool :: "'e any list"
  decoderPool :: "'d any list"

definition NameZstd :: string where
  "NameZstd = ''zstd''"

definition NameZstdDict :: string where
  "NameZstdDict = ''zstd-dict''"

definition NewZstd :: "('e, 'd) Zstd" where
  "NewZstd = \<lparr>name = NameZstd, dict = None, encoderPool = [], decoderPool = []\<rparr>"

definition NewZstdDict :: "bytes option \<Rightarrow> ('e, 'd) Zstd" where
  "NewZstdDict dictionary =
     \<lparr>name = NameZstdDict, dict = dictionary, encoderPool = [], decoderPool = []\<rparr>"

text \<open>
  The options that \<^verbatim>\<open>initPools\<close> (lines 74 to 111) passes to the constructors: the
  encoders of the pool are built with \<^verbatim>\<open>zstd.WithEncoderConcurrency(1)\<close>, with and
  without a dictionary.
\<close>

definition initPools_encoderOptions :: "bytes option \<Rightarrow> EOption list" where
  "initPools_encoderOptions dictionary =
     (case dictionary of
        Some d \<Rightarrow> [WithEncoderDict d, WithEncoderConcurrency 1]
      | None \<Rightarrow> [WithEncoderConcurrency 1])"

definition initPools_decoderOptions :: "bytes option \<Rightarrow> DOption list" where
  "initPools_decoderOptions dictionary =
     (case dictionary of Some d \<Rightarrow> [WithDecoderDicts d] | None \<Rightarrow> [])"

definition Zstd_encoderPool_New :: "('e, 'd, 'w, 'r) zstd \<Rightarrow> ('e, 'd) Zstd \<Rightarrow> 'e any" where
  "Zstd_encoderPool_New lib z =
     (case NewWriter lib None (initPools_encoderOptions (dict z)) of
        Inl err \<Rightarrow> NilInterface
      | Inr enc \<Rightarrow> Pointer (Some enc))"

definition Zstd_decoderPool_New :: "('e, 'd, 'w, 'r) zstd \<Rightarrow> ('e, 'd) Zstd \<Rightarrow> 'd any" where
  "Zstd_decoderPool_New lib z =
     (case NewReader lib None (initPools_decoderOptions (dict z)) of
        Inl err \<Rightarrow> NilInterface
      | Inr dec \<Rightarrow> Pointer (Some dec))"

text \<open>
  The stream a call hands out: the engine itself on the fallback path, or the engine
  wrapped so that it goes back to the pool (\<^verbatim>\<open>pooledEncoder\<close>, \<^verbatim>\<open>pooledDecoder\<close>; the
  pool they point to is the one of the \<^verbatim>\<open>Zstd\<close> that made them). The fallback of
  \<^verbatim>\<open>Decompress\<close> returns the results of \<^verbatim>\<open>zstd.NewReader\<close> as they are, so when
  the constructor fails the \<^verbatim>\<open>io.Reader\<close> it returns with the error is an interface
  that holds a nil \<^verbatim>\<open>*zstd.Decoder\<close>: \<open>Decoder None\<close>.
\<close>

datatype 'e WriteCloser = Encoder 'e | pooledEncoder 'e

datatype 'd Reader = Decoder "'d option" | pooledDecoder 'd

text \<open>
  \<^verbatim>\<open>Zstd.Compress\<close> (lines 119 to 137):
  \<^verbatim>\<open>
    enc := z.encoderPool.Get().(*zstd.Encoder)
    if enc == nil {
        // Fallback: create new encoder
        if z.dict != nil { enc, err = zstd.NewWriter(w, zstd.WithEncoderDict(z.dict)) }
        else             { enc, err = zstd.NewWriter(w) }
        if err != nil { return nil, err }
        return enc, nil
    }
    enc.Reset(w)
    return &pooledEncoder{enc: enc, pool: &z.encoderPool}, nil
  \<close>
\<close>

definition Zstd_Compress ::
  "('e, 'd, 'w, 'r) zstd \<Rightarrow> ('e, 'd) Zstd \<Rightarrow> nat option \<Rightarrow> 'w \<Rightarrow>
   ('e WriteCloser option \<times> error option) outcome \<times> ('e, 'd) Zstd" where
  "Zstd_Compress lib z pick w =
     (case Pool_Get (Zstd_encoderPool_New lib z) (encoderPool z) pick of
        (x, idle) \<Rightarrow>
          (case x of
             NilInterface \<Rightarrow> (Panicked, z\<lparr>encoderPool := idle\<rparr>)
           | Pointer None \<Rightarrow>
               (case NewWriter lib (Some w)
                       (case dict z of Some d \<Rightarrow> [WithEncoderDict d] | None \<Rightarrow> []) of
                  Inl err \<Rightarrow> (Returned (None, Some err), z\<lparr>encoderPool := idle\<rparr>)
                | Inr enc \<Rightarrow> (Returned (Some (Encoder enc), None), z\<lparr>encoderPool := idle\<rparr>))
           | Pointer (Some enc) \<Rightarrow>
               (Returned (Some (pooledEncoder (Encoder_Reset lib enc w)), None),
                z\<lparr>encoderPool := idle\<rparr>)))"

text \<open>
  \<^verbatim>\<open>Zstd.Decompress\<close> (lines 140 to 155):
  \<^verbatim>\<open>
    dec := z.decoderPool.Get().(*zstd.Decoder)
    if dec == nil {
        // Fallback: create new decoder
        if z.dict != nil { return zstd.NewReader(r, zstd.WithDecoderDicts(z.dict)) }
        return zstd.NewReader(r)
    }
    if err := dec.Reset(r); err != nil {
        z.decoderPool.Put(dec)
        return nil, err
    }
    return &pooledDecoder{dec: dec, pool: &z.decoderPool}, nil
  \<close>
\<close>

definition Zstd_Decompress ::
  "('e, 'd, 'w, 'r) zstd \<Rightarrow> ('e, 'd) Zstd \<Rightarrow> nat option \<Rightarrow> 'r \<Rightarrow>
   ('d Reader option \<times> error option) outcome \<times> ('e, 'd) Zstd" where
  "Zstd_Decompress lib z pick r =
     (case Pool_Get (Zstd_decoderPool_New lib z) (decoderPool z) pick of
        (x, idle) \<Rightarrow>
          (case x of
             NilInterface \<Rightarrow> (Panicked, z\<lparr>decoderPool := idle\<rparr>)
           | Pointer None \<Rightarrow>
               (case NewReader lib (Some r)
                       (case dict z of Some d \<Rightarrow> [WithDecoderDicts d] | None \<Rightarrow> []) of
                  Inl err \<Rightarrow>
                    (Returned (Some (Decoder None), Some err), z\<lparr>decoderPool := idle\<rparr>)
                | Inr dec \<Rightarrow>
                    (Returned (Some (Decoder (Some dec)), None), z\<lparr>decoderPool := idle\<rparr>))
           | Pointer (Some dec) \<Rightarrow>
               (case Decoder_Reset lib dec r of
                  (dec', Some err) \<Rightarrow>
                    (Returned (None, Some err),
                     z\<lparr>decoderPool := Pool_Put idle (Pointer (Some dec'))\<rparr>)
                | (dec', None) \<Rightarrow>
                    (Returned (Some (pooledDecoder dec'), None), z\<lparr>decoderPool := idle\<rparr>))))"

text \<open>
  \<^verbatim>\<open>pooledDecoder.Read\<close> (lines 179 to 185), on the decoder \<^verbatim>\<open>p.dec\<close>, the pool
  \<^verbatim>\<open>p.pool\<close> points to and a buffer of \<open>n\<close> bytes:
  \<^verbatim>\<open>
    n, err := p.dec.Read(data)
    if err == io.EOF {
        p.pool.Put(p.dec)
    }
    return n, err
  \<close>
  The result is the bytes read with the error, the decoder after the read, and the pool.
\<close>

definition pooledDecoder_Read ::
  "('e, 'd, 'w, 'r) zstd \<Rightarrow> 'd \<Rightarrow> 'd any list \<Rightarrow> nat \<Rightarrow>
   (bytes \<times> error option) \<times> 'd \<times> 'd any list" where
  "pooledDecoder_Read lib dec pool n =
     (case Decoder_Read lib dec n of
        (dec', read, err) \<Rightarrow>
          ((read, err), dec',
           if err = Some EOF then Pool_Put pool (Pointer (Some dec')) else pool))"

section \<open>Dictionary training\<close>







section \<open>The sample generator of the tests\<close>






section \<open>Example inputs\<close>

text \<open>
  Small stand-ins for the external compressors, and a few messages, on which the
  theorems below are instantiated. The dictionary-bound stand-in adds two bytes to a
  message shorter than four bytes and cuts a longer one down to two: as with a real
  dictionary, a small message can come out larger than without the dictionary.
\<close>

definition ex_plain :: compress where
  "ex_plain s = s"

definition ex_withDict :: compress where
  "ex_withDict s = (if length s < 4 then s @ [0, 0] else take 2 s)"

definition M1 :: bytes where "M1 = [1, 2]"
definition M2 :: bytes where "M2 = [1, 2, 3, 4, 5, 6, 7, 8, 9, 10]"
definition M3 :: bytes where "M3 = [1, 2, 3, 4, 5, 6, 7, 8]"
definition ex_dictionary :: bytes where "ex_dictionary = [0, 0, 0, 0, 0]"

definition ex_gzip :: compress where
  "ex_gzip s = 31 # 139 # s"

lemmas ex_defs = ex_plain_def ex_withDict_def M1_def M2_def M3_def ex_dictionary_def

text \<open>
  A stand-in for the engine, on which the theorems about the codec are instantiated: it
  stores a message behind one header byte that tells whether a dictionary was bound, and
  its constructors refuse a dictionary of fewer than eight bytes. An engine is the
  dictionary it was built with.
\<close>

fun encoder_dict :: "EOption list \<Rightarrow> bytes option" where
  "encoder_dict [] = None"
| "encoder_dict (WithEncoderDict d # opts) = Some d"
| "encoder_dict (WithEncoderConcurrency n # opts) = encoder_dict opts"

fun decoder_dict :: "DOption list \<Rightarrow> bytes option" where
  "decoder_dict [] = None"
| "decoder_dict (WithDecoderDicts d # opts) = Some d"

definition stored_new :: "bytes option \<Rightarrow> error + bytes option" where
  "stored_new dictionary =
     (case dictionary of
        None \<Rightarrow> Inr None
      | Some d \<Rightarrow> if length d < 8 then Inl (Error ''dictionary is too small'') else Inr (Some d))"

definition stored_header :: "bytes option \<Rightarrow> 8 word" where
  "stored_header dictionary = (case dictionary of None \<Rightarrow> 0 | Some d \<Rightarrow> 1)"

definition stored_DecodeAll :: "bytes option \<Rightarrow> bytes \<Rightarrow> bytes \<Rightarrow> bytes \<times> error option" where
  "stored_DecodeAll dec input dst =
     (case input of
        [] \<Rightarrow> (dst, Some (Error ''unexpected EOF''))
      | h # payload \<Rightarrow>
          if h = stored_header dec then (dst @ payload, None)
          else (dst, Some (Error ''dictionary mismatch'')))"

definition stored_zstd :: "(bytes option, bytes option, unit, unit) zstd" where
  "stored_zstd =
     \<lparr>NewWriter = (\<lambda>w opts. stored_new (encoder_dict opts)),
      EncodeAll = (\<lambda>enc src dst. dst @ stored_header enc # src),
      Encoder_Reset = (\<lambda>enc w. enc),
      NewReader = (\<lambda>r opts. stored_new (decoder_dict opts)),
      DecodeAll = stored_DecodeAll,
      Decoder_Reset = (\<lambda>dec r. (dec, None)),
      Decoder_Read = (\<lambda>dec n. (dec, [], Some EOF))\<rparr>"

lemmas stored_defs = stored_zstd_def stored_new_def stored_header_def stored_DecodeAll_def

text \<open>
  A second behaviour of the same engine: built by the same constructors, it stores the
  message back to front.
\<close>

definition varying_zstd :: "(bytes option, bytes option, unit, unit) zstd" where
  "varying_zstd = stored_zstd\<lparr>EncodeAll := (\<lambda>enc src dst. dst @ stored_header enc # rev src)\<rparr>"

definition ex_trained :: bytes where
  "ex_trained = [55, 164, 48, 236, 1, 0, 0, 0, 47, 117, 115, 114]"

definition ex_malformed :: bytes where
  "ex_malformed = [1, 2, 3]"


section \<open>Properties of the break-even computation\<close>

lemma int64_id: "- (2 ^ 63) \<le> k \<Longrightarrow> k < 2 ^ 63 \<Longrightarrow> int64 k = k"
  by (simp add: int64_def signed_take_bit_int_eq_self)

lemma len_nonneg [simp]: "0 \<le> len s"
  by (simp add: len_def)

lemma calculateBreakevenPoint_loop_eq:
  "calculateBreakevenPoint_loop cn cd dc s i xs = calculateBreakeven_loop cn cd dc s i xs"
  by (induction xs arbitrary: s i) (simp_all add: Let_def accumulate_def)

lemma calculateBreakevenPoint_eq:
  "calculateBreakevenPoint samples dictionary cn cd = calculateBreakeven dictionary samples cn cd"
  by (simp add: calculateBreakevenPoint_def calculateBreakeven_def
      calculateBreakevenPoint_loop_eq)

lemma loop_range:
  "calculateBreakeven_loop cn cd dc s i xs = - 1 \<or>
   (int i + 1 \<le> calculateBreakeven_loop cn cd dc s i xs \<and>
    calculateBreakeven_loop cn cd dc s i xs \<le> int i + int (length xs))"
proof (induction xs arbitrary: s i)
  case Nil
  show ?case by simp
next
  case (Cons x xs)
  show ?case
  proof (cases "accumulate cn cd s x \<ge> dc")
    case True
    then show ?thesis by (simp add: Let_def)
  next
    case False
    with Cons [of "accumulate cn cd s x" "Suc i"] show ?thesis
      by (auto simp: Let_def)
  qed
qed

lemma accumulate_exact:
  assumes "\<bar>s\<bar> + (len (cn x) + len (cd x)) < 2 ^ 63"
  shows "accumulate cn cd s x = s + (len (cn x) - len (cd x))"
proof -
  have a: "0 \<le> len (cn x)" and b: "0 \<le> len (cd x)" by simp_all
  have 1: "int64 (len (cn x) - len (cd x)) = len (cn x) - len (cd x)"
    using assms a b by (intro int64_id) linarith+
  have 2: "int64 (s + (len (cn x) - len (cd x))) = s + (len (cn x) - len (cd x))"
    using assms a b by (intro int64_id) linarith+
  show ?thesis by (simp add: accumulate_def Let_def 1 2)
qed

text \<open>
  The loop from a state \<open>(s, i)\<close>, when nothing wraps: either no prefix of the remaining
  messages lifts the savings to the threshold and the result is \<open>-1\<close>, or the result
  is \<open>i + r\<close> for the shortest prefix, of length \<open>r\<close>, that does.
\<close>

lemma loop_char:
  assumes "\<bar>s\<bar> + (\<Sum>x\<leftarrow>xs. len (cn x) + len (cd x)) < 2 ^ 63"
  shows "(calculateBreakeven_loop cn cd dc s i xs = - 1 \<and>
          (\<forall>k. 1 \<le> k \<and> k \<le> length xs \<longrightarrow>
             s + (\<Sum>x\<leftarrow>take k xs. len (cn x) - len (cd x)) < dc)) \<or>
         (\<exists>r. 1 \<le> r \<and> r \<le> length xs \<and>
              calculateBreakeven_loop cn cd dc s i xs = int i + int r \<and>
              dc \<le> s + (\<Sum>x\<leftarrow>take r xs. len (cn x) - len (cd x)) \<and>
              (\<forall>k. 1 \<le> k \<and> k < r \<longrightarrow>
                 s + (\<Sum>x\<leftarrow>take k xs. len (cn x) - len (cd x)) < dc))"
  using assms
proof (induction xs arbitrary: s i)
  case Nil
  show ?case by simp
next
  case (Cons x xs)
  let ?e = "len (cn x) - len (cd x)"
  let ?s' = "s + ?e"
  have nn: "0 \<le> (\<Sum>x\<leftarrow>xs. len (cn x) + len (cd x))"
    by (rule sum_list_nonneg) (auto intro: add_nonneg_nonneg)
  have a: "0 \<le> len (cn x)" and b: "0 \<le> len (cd x)" by simp_all
  from Cons.prems have bx: "\<bar>s\<bar> + (len (cn x) + len (cd x)) < 2 ^ 63"
    using nn by simp
  have acc: "accumulate cn cd s x = ?s'" using bx by (rule accumulate_exact)
  show ?case
  proof (cases "dc \<le> ?s'")
    case True
    have "1 \<le> (1::nat) \<and> 1 \<le> length (x # xs) \<and>
          calculateBreakeven_loop cn cd dc s i (x # xs) = int i + int 1 \<and>
          dc \<le> s + (\<Sum>x\<leftarrow>take 1 (x # xs). len (cn x) - len (cd x)) \<and>
          (\<forall>k. 1 \<le> k \<and> k < (1::nat) \<longrightarrow>
             s + (\<Sum>x\<leftarrow>take k (x # xs). len (cn x) - len (cd x)) < dc)"
      using True by (simp add: acc Let_def)
    then show ?thesis by blast
  next
    case False
    have step: "calculateBreakeven_loop cn cd dc s i (x # xs) =
                calculateBreakeven_loop cn cd dc ?s' (Suc i) xs"
      using False by (simp add: acc Let_def)
    have bs': "\<bar>?s'\<bar> + (\<Sum>x\<leftarrow>xs. len (cn x) + len (cd x)) < 2 ^ 63"
    proof -
      from Cons.prems
      have "\<bar>s\<bar> + (len (cn x) + len (cd x) + (\<Sum>x\<leftarrow>xs. len (cn x) + len (cd x))) < 2 ^ 63"
        by simp
      with a b show ?thesis by linarith
    qed
    have tk: "\<And>k. 1 \<le> k \<Longrightarrow>
        s + (\<Sum>x\<leftarrow>take k (x # xs). len (cn x) - len (cd x)) =
        ?s' + (\<Sum>x\<leftarrow>take (k - 1) xs. len (cn x) - len (cd x))"
      by (case_tac k) simp_all
    from Cons.IH [OF bs', of "Suc i"] show ?thesis
    proof
      assume h: "calculateBreakeven_loop cn cd dc ?s' (Suc i) xs = - 1 \<and>
          (\<forall>k. 1 \<le> k \<and> k \<le> length xs \<longrightarrow>
             ?s' + (\<Sum>x\<leftarrow>take k xs. len (cn x) - len (cd x)) < dc)"
      have "\<forall>k. 1 \<le> k \<and> k \<le> length (x # xs) \<longrightarrow>
              s + (\<Sum>x\<leftarrow>take k (x # xs). len (cn x) - len (cd x)) < dc"
      proof (intro allI impI)
        fix k assume k: "1 \<le> k \<and> k \<le> length (x # xs)"
        show "s + (\<Sum>x\<leftarrow>take k (x # xs). len (cn x) - len (cd x)) < dc"
        proof (cases "k = 1")
          case True
          then show ?thesis using False by simp
        next
          case False
          with k have "1 \<le> k - 1 \<and> k - 1 \<le> length xs" by auto
          with h have "?s' + (\<Sum>x\<leftarrow>take (k - 1) xs. len (cn x) - len (cd x)) < dc"
            by blast
          with tk [of k] k show ?thesis by simp
        qed
      qed
      with h step show ?thesis by simp
    next
      assume "\<exists>r. 1 \<le> r \<and> r \<le> length xs \<and>
          calculateBreakeven_loop cn cd dc ?s' (Suc i) xs = int (Suc i) + int r \<and>
          dc \<le> ?s' + (\<Sum>x\<leftarrow>take r xs. len (cn x) - len (cd x)) \<and>
          (\<forall>k. 1 \<le> k \<and> k < r \<longrightarrow>
             ?s' + (\<Sum>x\<leftarrow>take k xs. len (cn x) - len (cd x)) < dc)"
      then obtain r where r: "1 \<le> r" "r \<le> length xs"
          "calculateBreakeven_loop cn cd dc ?s' (Suc i) xs = int (Suc i) + int r"
          "dc \<le> ?s' + (\<Sum>x\<leftarrow>take r xs. len (cn x) - len (cd x))"
          "\<forall>k. 1 \<le> k \<and> k < r \<longrightarrow>
             ?s' + (\<Sum>x\<leftarrow>take k xs. len (cn x) - len (cd x)) < dc"
        by blast
      have m: "\<forall>k. 1 \<le> k \<and> k < Suc r \<longrightarrow>
              s + (\<Sum>x\<leftarrow>take k (x # xs). len (cn x) - len (cd x)) < dc"
      proof (intro allI impI)
        fix k assume k: "1 \<le> k \<and> k < Suc r"
        show "s + (\<Sum>x\<leftarrow>take k (x # xs). len (cn x) - len (cd x)) < dc"
        proof (cases "k = 1")
          case True
          then show ?thesis using False by simp
        next
          case False
          with k have "1 \<le> k - 1 \<and> k - 1 < r" by auto
          with r(5) have "?s' + (\<Sum>x\<leftarrow>take (k - 1) xs. len (cn x) - len (cd x)) < dc"
            by blast
          with tk [of k] k show ?thesis by simp
        qed
      qed
      have "1 \<le> Suc r \<and> Suc r \<le> length (x # xs) \<and>
            calculateBreakeven_loop cn cd dc s i (x # xs) = int i + int (Suc r) \<and>
            dc \<le> s + (\<Sum>x\<leftarrow>take (Suc r) (x # xs). len (cn x) - len (cd x))"
        using r step by simp
      with m show ?thesis by blast
    qed
  qed
qed

text \<open>
  C10. The break-even computation never returns 0: the result of \<^verbatim>\<open>calculateBreakeven\<close>
  and of \<^verbatim>\<open>calculateBreakevenPoint\<close> is \<open>-1\<close> or an index from 1 to the number of
  messages, for every input and whether or not the 64-bit sums wrap; on an empty message
  sequence it is \<open>-1\<close> whatever the dictionary is, the empty dictionary included,
  since the threshold is tested only after a message has been added.
\<close>

theorem calculateBreakeven_never_zero:
  "(calculateBreakeven dictionary samples compNone compDict = - 1 \<or>
      (1 \<le> calculateBreakeven dictionary samples compNone compDict \<and>
       calculateBreakeven dictionary samples compNone compDict \<le> int (length samples))) \<and>
   calculateBreakeven dictionary samples compNone compDict \<noteq> 0 \<and>
   calculateBreakeven dictionary [] compNone compDict = - 1 \<and>
   calculateBreakeven [] [] compNone compDict = - 1 \<and>
   (calculateBreakevenPoint samples dictionary compNone compDict = - 1 \<or>
      (1 \<le> calculateBreakevenPoint samples dictionary compNone compDict \<and>
       calculateBreakevenPoint samples dictionary compNone compDict \<le> int (length samples))) \<and>
   calculateBreakevenPoint samples dictionary compNone compDict \<noteq> 0 \<and>
   calculateBreakevenPoint [] dictionary compNone compDict = - 1 \<and>
   calculateBreakevenPoint [] [] compNone compDict = - 1"
proof -
  have r: "calculateBreakeven dictionary samples compNone compDict = - 1 \<or>
      (1 \<le> calculateBreakeven dictionary samples compNone compDict \<and>
       calculateBreakeven dictionary samples compNone compDict \<le> int (length samples))"
    using loop_range [of compNone compDict "len dictionary" 0 0 samples]
    by (simp add: calculateBreakeven_def)
  then have z: "calculateBreakeven dictionary samples compNone compDict \<noteq> 0" by linarith
  have e: "calculateBreakeven d [] compNone compDict = - 1" for d
    by (simp add: calculateBreakeven_def)
  from r z e show ?thesis by (simp add: calculateBreakevenPoint_eq)
qed

text \<open>
  C3. For every sequence of messages and every dictionary, the break-even computation
  returns the smallest prefix length, counted from the first message, at which the
  cumulative signed savings reach the byte size of the dictionary, and \<open>-1\<close> when no
  prefix of the evaluated sequence does; nothing is extrapolated beyond the sequence.
  \<^verbatim>\<open>calculateBreakevenPoint\<close> returns the same value as \<^verbatim>\<open>calculateBreakeven\<close>.
  Prefix lengths count from one message on; for a non-empty dictionary the empty prefix
  is below the threshold as well, so the result is the smallest prefix length of all.
  The sizes are assumed to fit the 64-bit accumulator (\<open>sizes_fit\<close>).
\<close>

theorem calculateBreakeven_smallest_prefix:
  assumes "sizes_fit compNone compDict samples"
  shows "calculateBreakevenPoint samples dictionary compNone compDict =
           calculateBreakeven dictionary samples compNone compDict \<and>
         ((calculateBreakeven dictionary samples compNone compDict = - 1 \<and>
           (\<forall>k. 1 \<le> k \<and> k \<le> length samples \<longrightarrow>
              spec_cumulativeSavings compNone compDict samples k < len dictionary)) \<or>
          (\<exists>r. 1 \<le> r \<and> r \<le> length samples \<and>
              calculateBreakeven dictionary samples compNone compDict = int r \<and>
              len dictionary \<le> spec_cumulativeSavings compNone compDict samples r \<and>
              (\<forall>k. 1 \<le> k \<and> k < r \<longrightarrow>
                 spec_cumulativeSavings compNone compDict samples k < len dictionary))) \<and>
         (dictionary \<noteq> [] \<longrightarrow>
            spec_cumulativeSavings compNone compDict samples 0 < len dictionary)"
proof -
  have z: "dictionary \<noteq> [] \<longrightarrow>
            spec_cumulativeSavings compNone compDict samples 0 < len dictionary"
    by (simp add: spec_cumulativeSavings_def len_def)
  from assms
  have "\<bar>0::int\<bar> + (\<Sum>x\<leftarrow>samples. len (compNone x) + len (compDict x)) < 2 ^ 63"
    by (simp add: sizes_fit_def)
  from loop_char [OF this, of "len dictionary" 0] z show ?thesis
    by (simp add: calculateBreakevenPoint_eq calculateBreakeven_def spec_cumulativeSavings_def)
qed

text \<open>
  The order-dependence example of the specification: the small message \<open>M1\<close> costs two
  bytes under the dictionary, the large message \<open>M2\<close> saves eight, the dictionary has
  five bytes. In the order \<open>[M1, M2]\<close> the break-even index is 2, in the order
  \<open>[M2, M1]\<close> it is 1.
\<close>

lemma ex_fit: "sizes_fit ex_plain ex_withDict [M1, M2]"
  by (simp add: sizes_fit_def len_def ex_defs)

lemma ex_run: "calculateBreakeven ex_dictionary [M1, M2] ex_plain ex_withDict = 2"
  by (simp add: calculateBreakeven_def accumulate_def Let_def len_def int64_id ex_defs)

lemma ex_run2: "calculateBreakeven ex_dictionary [M2, M1] ex_plain ex_withDict = 1"
  by (simp add: calculateBreakeven_def accumulate_def Let_def len_def int64_id ex_defs)

theorem calculateBreakeven_smallest_prefix_witness:
  "sizes_fit ex_plain ex_withDict [M1, M2] \<and>
   calculateBreakevenPoint [M1, M2] ex_dictionary ex_plain ex_withDict = 2 \<and>
   calculateBreakeven ex_dictionary [M1, M2] ex_plain ex_withDict = 2 \<and>
   len ex_dictionary \<le> spec_cumulativeSavings ex_plain ex_withDict [M1, M2] 2 \<and>
   spec_cumulativeSavings ex_plain ex_withDict [M1, M2] 1 < len ex_dictionary"
proof -
  note t = calculateBreakeven_smallest_prefix [OF ex_fit, of ex_dictionary]
  from t have p: "calculateBreakevenPoint [M1, M2] ex_dictionary ex_plain ex_withDict = 2"
    by (simp add: ex_run)
  from t obtain r where r: "calculateBreakeven ex_dictionary [M1, M2] ex_plain ex_withDict = int r"
      "len ex_dictionary \<le> spec_cumulativeSavings ex_plain ex_withDict [M1, M2] r"
      "\<forall>k. 1 \<le> k \<and> k < r \<longrightarrow>
         spec_cumulativeSavings ex_plain ex_withDict [M1, M2] k < len ex_dictionary"
    by (auto simp: ex_run)
  from r(1) have "r = 2" by (simp add: ex_run)
  with r p ex_fit ex_run show ?thesis by simp
qed

text \<open>
  C6. The savings of a message are the plain-compressed size minus the
  dictionary-compressed size as a signed quantity, and the loop adds that value to the
  cumulative savings as it is: when the dictionary-compressed output is the larger one
  the cumulative savings go down, they are not clamped at zero, and the loop of
  \<^verbatim>\<open>calculateBreakeven\<close> and of \<^verbatim>\<open>calculateBreakevenPoint\<close> goes on from the lowered
  value. The hypothesis keeps the sum inside the 64-bit range.
\<close>

theorem savings_signed_not_clamped:
  assumes "\<bar>cumulativeSavings\<bar> + (len (compNone sample) + len (compDict sample)) < 2 ^ 63"
  shows "accumulate compNone compDict cumulativeSavings sample =
           cumulativeSavings + (len (compNone sample) - len (compDict sample)) \<and>
         (len (compNone sample) < len (compDict sample) \<longrightarrow>
            accumulate compNone compDict cumulativeSavings sample < cumulativeSavings) \<and>
         calculateBreakeven_loop compNone compDict dictCost cumulativeSavings i (sample # rest) =
           (if dictCost \<le> cumulativeSavings + (len (compNone sample) - len (compDict sample))
            then int i + 1
            else calculateBreakeven_loop compNone compDict dictCost
                   (cumulativeSavings + (len (compNone sample) - len (compDict sample))) (Suc i) rest) \<and>
         calculateBreakevenPoint_loop compNone compDict dictCost cumulativeSavings i (sample # rest) =
           (if dictCost \<le> cumulativeSavings + (len (compNone sample) - len (compDict sample))
            then int i + 1
            else calculateBreakevenPoint_loop compNone compDict dictCost
                   (cumulativeSavings + (len (compNone sample) - len (compDict sample))) (Suc i) rest)"
proof -
  have acc: "accumulate compNone compDict cumulativeSavings sample =
           cumulativeSavings + (len (compNone sample) - len (compDict sample))"
    using assms by (rule accumulate_exact)
  have 1: "calculateBreakeven_loop compNone compDict dictCost cumulativeSavings i (sample # rest) =
           (if dictCost \<le> cumulativeSavings + (len (compNone sample) - len (compDict sample))
            then int i + 1
            else calculateBreakeven_loop compNone compDict dictCost
                   (cumulativeSavings + (len (compNone sample) - len (compDict sample))) (Suc i) rest)"
    by (simp add: acc Let_def)
  show ?thesis
    unfolding calculateBreakevenPoint_loop_eq using acc 1 by simp
qed

text \<open>
  On \<open>M1\<close> the savings are \<open>-2\<close> and the accumulator goes from 0 to \<open>-2\<close>. With
  a threshold of 5, \<open>[M1, M3]\<close> never breaks even (\<open>-2 + 6 = 4\<close>), where savings
  clamped at zero would have reported index 2 (\<open>0 + 6 = 6\<close>).
\<close>

theorem savings_signed_not_clamped_witness:
  "\<bar>0::int\<bar> + (len (ex_plain M1) + len (ex_withDict M1)) < 2 ^ 63 \<and>
   len (ex_plain M1) - len (ex_withDict M1) = - 2 \<and>
   accumulate ex_plain ex_withDict 0 M1 = - 2 \<and>
   calculateBreakeven_loop ex_plain ex_withDict 5 0 0 [M1, M3] = - 1"
proof -
  have h: "\<bar>0::int\<bar> + (len (ex_plain M1) + len (ex_withDict M1)) < 2 ^ 63"
    by (simp add: len_def ex_defs)
  have h3: "\<bar>- 2::int\<bar> + (len (ex_plain M3) + len (ex_withDict M3)) < 2 ^ 63"
    by (simp add: len_def ex_defs)
  have d: "len (ex_plain M1) - len (ex_withDict M1) = - 2"
    by (simp add: len_def ex_defs)
  have d3: "len (ex_plain M3) - len (ex_withDict M3) = 6"
    by (simp add: len_def ex_defs)
  note t = savings_signed_not_clamped [where compNone = ex_plain and compDict = ex_withDict
      and sample = M1 and cumulativeSavings = 0 and dictCost = 5 and i = 0 and rest = "[M3]", OF h]
  note t3 = savings_signed_not_clamped [where compNone = ex_plain and compDict = ex_withDict
      and sample = M3 and cumulativeSavings = "- 2" and dictCost = 5 and i = 1 and rest = "[]", OF h3]
  from t have a: "accumulate ex_plain ex_withDict 0 M1 = - 2" by (simp add: d)
  from t have "calculateBreakeven_loop ex_plain ex_withDict 5 0 0 [M1, M3] =
               calculateBreakeven_loop ex_plain ex_withDict 5 (- 2) 1 [M3]"
    by (simp add: d)
  also from t3 have "\<dots> = - 1" by (simp add: d3)
  finally show ?thesis using h d a by simp
qed


lemma int64_add_len:
  assumes "0 \<le> v" "v + len s < 2 ^ 63"
  shows "int64 (v + int64 (len s)) = v + len s"
proof -
  have a: "0 \<le> len s" by simp
  have 1: "int64 (len s) = len s" using assms a by (intro int64_id) linarith+
  have 2: "int64 (v + len s) = v + len s" using assms a by (intro int64_id) linarith+
  show ?thesis by (simp add: 1 2)
qed

lemma sum_list_len_nonneg: "0 \<le> (\<Sum>x\<leftarrow>xs. len (f x))"
  by (rule sum_list_nonneg) auto

lemma sum_list_take_le:
  "(\<Sum>x\<leftarrow>take k xs. len (f x)) \<le> (\<Sum>x\<leftarrow>xs. len (f x))"
proof -
  have "(\<Sum>x\<leftarrow>xs. len (f x)) = (\<Sum>x\<leftarrow>take k xs. len (f x)) + (\<Sum>x\<leftarrow>drop k xs. len (f x))"
    by (metis append_take_drop_id map_append sum_list_append)
  with sum_list_len_nonneg [of f "drop k xs"] show ?thesis by linarith
qed

lemma main_loop_body_exact:
  assumes "0 \<le> totalUncompressed t" "totalUncompressed t + len x < 2 ^ 63"
      and "0 \<le> totals.totalGzip t" "totals.totalGzip t + len (gz x) < 2 ^ 63"
      and "0 \<le> totals.totalZstd t" "totals.totalZstd t + len (cn x) < 2 ^ 63"
      and "0 \<le> totalZstdDict t" "totalZstdDict t + len (cd x) < 2 ^ 63"
  shows "main_loop_body gz cn cd t x =
         \<lparr>totalUncompressed = totalUncompressed t + len x,
          totals.totalGzip = totals.totalGzip t + len (gz x),
          totals.totalZstd = totals.totalZstd t + len (cn x),
          totalZstdDict = totalZstdDict t + len (cd x)\<rparr>"
  using assms by (simp add: main_loop_body_def Let_def int64_add_len)

lemma main_fold_exact:
  assumes "0 \<le> totalUncompressed t" "totalUncompressed t + (\<Sum>x\<leftarrow>xs. len x) < 2 ^ 63"
      and "0 \<le> totals.totalGzip t" "totals.totalGzip t + (\<Sum>x\<leftarrow>xs. len (gz x)) < 2 ^ 63"
      and "0 \<le> totals.totalZstd t" "totals.totalZstd t + (\<Sum>x\<leftarrow>xs. len (cn x)) < 2 ^ 63"
      and "0 \<le> totalZstdDict t" "totalZstdDict t + (\<Sum>x\<leftarrow>xs. len (cd x)) < 2 ^ 63"
  shows "foldl (main_loop_body gz cn cd) t xs =
         \<lparr>totalUncompressed = totalUncompressed t + (\<Sum>x\<leftarrow>xs. len x),
          totals.totalGzip = totals.totalGzip t + (\<Sum>x\<leftarrow>xs. len (gz x)),
          totals.totalZstd = totals.totalZstd t + (\<Sum>x\<leftarrow>xs. len (cn x)),
          totalZstdDict = totalZstdDict t + (\<Sum>x\<leftarrow>xs. len (cd x))\<rparr>"
  using assms
proof (induction xs arbitrary: t)
  case Nil
  show ?case by simp
next
  case (Cons x xs)
  have n1: "0 \<le> (\<Sum>x\<leftarrow>xs. len x)"
    using sum_list_len_nonneg [where f = "\<lambda>x. x" and xs = xs] by simp
  have n2: "0 \<le> (\<Sum>x\<leftarrow>xs. len (gz x))" by (rule sum_list_len_nonneg)
  have n3: "0 \<le> (\<Sum>x\<leftarrow>xs. len (cn x))" by (rule sum_list_len_nonneg)
  have n4: "0 \<le> (\<Sum>x\<leftarrow>xs. len (cd x))" by (rule sum_list_len_nonneg)
  have l: "0 \<le> len x" "0 \<le> len (gz x)" "0 \<le> len (cn x)" "0 \<le> len (cd x)" by simp_all
  have b: "main_loop_body gz cn cd t x =
         \<lparr>totalUncompressed = totalUncompressed t + len x,
          totals.totalGzip = totals.totalGzip t + len (gz x),
          totals.totalZstd = totals.totalZstd t + len (cn x),
          totalZstdDict = totalZstdDict t + len (cd x)\<rparr>"
    using Cons.prems n1 n2 n3 n4 by (intro main_loop_body_exact) simp_all
  have "foldl (main_loop_body gz cn cd) (main_loop_body gz cn cd t x) xs =
        \<lparr>totalUncompressed = totalUncompressed (main_loop_body gz cn cd t x) + (\<Sum>x\<leftarrow>xs. len x),
          totals.totalGzip = totals.totalGzip (main_loop_body gz cn cd t x) + (\<Sum>x\<leftarrow>xs. len (gz x)),
          totals.totalZstd = totals.totalZstd (main_loop_body gz cn cd t x) + (\<Sum>x\<leftarrow>xs. len (cn x)),
          totalZstdDict = totalZstdDict (main_loop_body gz cn cd t x) + (\<Sum>x\<leftarrow>xs. len (cd x))\<rparr>"
    using Cons.prems l by (intro Cons.IH) (simp_all add: b)
  then show ?case by (simp add: b)
qed

lemma main_totals_exact:
  assumes "totals_fit gz cn cd xs"
  shows "main_totals gz cn cd (take k xs) =
         \<lparr>totalUncompressed = (\<Sum>x\<leftarrow>take k xs. len x),
          totals.totalGzip = (\<Sum>x\<leftarrow>take k xs. len (gz x)),
          totals.totalZstd = (\<Sum>x\<leftarrow>take k xs. len (cn x)),
          totalZstdDict = (\<Sum>x\<leftarrow>take k xs. len (cd x))\<rparr>"
proof -
  have 1: "(\<Sum>x\<leftarrow>take k xs. len x) < 2 ^ 63"
    using sum_list_take_le [where k = k and f = "\<lambda>x. x" and xs = xs] assms
    by (simp add: totals_fit_def)
  have 2: "(\<Sum>x\<leftarrow>take k xs. len (gz x)) < 2 ^ 63"
    using sum_list_take_le [where k = k and f = gz and xs = xs] assms
    by (simp add: totals_fit_def)
  have 3: "(\<Sum>x\<leftarrow>take k xs. len (cn x)) < 2 ^ 63"
    using sum_list_take_le [where k = k and f = cn and xs = xs] assms
    by (simp add: totals_fit_def)
  have 4: "(\<Sum>x\<leftarrow>take k xs. len (cd x)) < 2 ^ 63"
    using sum_list_take_le [where k = k and f = cd and xs = xs] assms
    by (simp add: totals_fit_def)
  show ?thesis
    unfolding main_totals_def
    using 1 2 3 4 by (subst main_fold_exact) simp_all
qed

lemma main_totals_Suc:
  "k < length xs \<Longrightarrow>
   main_totals gz cn cd (take (Suc k) xs) =
   main_loop_body gz cn cd (main_totals gz cn cd (take k xs)) (xs ! k)"
  by (simp add: main_totals_def take_Suc_conv_app_nth)

lemma analyzeScenario_loop_body_eq:
  "analyzeScenario_loop_body gz cn cd (as_scenario t) x = as_scenario (main_loop_body gz cn cd t x)"
  by (simp add: analyzeScenario_loop_body_def main_loop_body_def as_scenario_def Let_def)

lemma analyzeScenario_fold_eq:
  "foldl (analyzeScenario_loop_body gz cn cd) (as_scenario t) xs =
   as_scenario (foldl (main_loop_body gz cn cd) t xs)"
  by (induction xs arbitrary: t) (simp_all add: analyzeScenario_loop_body_eq)

lemma analyzeScenario_totals_eq:
  "analyzeScenario_totals gz cn cd xs = as_scenario (main_totals gz cn cd xs)"
  using analyzeScenario_fold_eq
    [of gz cn cd "\<lparr>totalUncompressed = 0, totals.totalGzip = 0, totals.totalZstd = 0, totalZstdDict = 0\<rparr>" xs]
  by (simp add: analyzeScenario_totals_def main_totals_def as_scenario_def)

text \<open>
  C7. For any message sequence, after each message is processed the running totals of
  uncompressed, gzip, plain-zstd and dictionary-zstd bytes are each greater than or equal
  to their values before that message, in \<^verbatim>\<open>main\<close> and in \<^verbatim>\<open>analyzeScenario\<close>:
  \<open>before\<close> are the totals after the first \<open>k\<close> messages, \<open>after\<close> the totals once the
  loop body has run on message \<open>k\<close>. The sizes are assumed to fit the 64-bit totals
  (\<open>totals_fit\<close>).
\<close>

theorem totals_non_decreasing:
  assumes "totals_fit gzip compNone compDict samples" and "k < length samples"
  shows "(let before = main_totals gzip compNone compDict (take k samples);
              after = main_loop_body gzip compNone compDict before (samples ! k)
          in after = main_totals gzip compNone compDict (take (Suc k) samples) \<and>
             totalUncompressed before \<le> totalUncompressed after \<and>
             totals.totalGzip before \<le> totals.totalGzip after \<and>
             totals.totalZstd before \<le> totals.totalZstd after \<and>
             totalZstdDict before \<le> totalZstdDict after) \<and>
         (let before = analyzeScenario_totals gzip compNone compDict (take k samples);
              after = analyzeScenario_loop_body gzip compNone compDict before (samples ! k)
          in after = analyzeScenario_totals gzip compNone compDict (take (Suc k) samples) \<and>
             totalOrig before \<le> totalOrig after \<and>
             totalGzip before \<le> totalGzip after \<and>
             totalZstd before \<le> totalZstd after \<and>
             totalDict before \<le> totalDict after)"
proof -
  let ?b = "main_totals gzip compNone compDict (take k samples)"
  let ?a = "main_totals gzip compNone compDict (take (Suc k) samples)"
  have s: "main_loop_body gzip compNone compDict ?b (samples ! k) = ?a"
    using assms(2) by (simp add: main_totals_Suc)
  have tk: "take (Suc k) samples = take k samples @ [samples ! k]"
    using assms(2) by (simp add: take_Suc_conv_app_nth)
  have b: "?b = \<lparr>totalUncompressed = (\<Sum>x\<leftarrow>take k samples. len x),
          totals.totalGzip = (\<Sum>x\<leftarrow>take k samples. len (gzip x)),
          totals.totalZstd = (\<Sum>x\<leftarrow>take k samples. len (compNone x)),
          totalZstdDict = (\<Sum>x\<leftarrow>take k samples. len (compDict x))\<rparr>"
    using assms(1) by (rule main_totals_exact)
  have a: "?a = \<lparr>totalUncompressed = (\<Sum>x\<leftarrow>take (Suc k) samples. len x),
          totals.totalGzip = (\<Sum>x\<leftarrow>take (Suc k) samples. len (gzip x)),
          totals.totalZstd = (\<Sum>x\<leftarrow>take (Suc k) samples. len (compNone x)),
          totalZstdDict = (\<Sum>x\<leftarrow>take (Suc k) samples. len (compDict x))\<rparr>"
    using assms(1) by (rule main_totals_exact)
  have m: "totalUncompressed ?b \<le> totalUncompressed ?a \<and>
           totals.totalGzip ?b \<le> totals.totalGzip ?a \<and>
           totals.totalZstd ?b \<le> totals.totalZstd ?a \<and>
           totalZstdDict ?b \<le> totalZstdDict ?a"
    unfolding a b by (simp add: tk)
  have s': "analyzeScenario_loop_body gzip compNone compDict
              (analyzeScenario_totals gzip compNone compDict (take k samples)) (samples ! k) =
            analyzeScenario_totals gzip compNone compDict (take (Suc k) samples)"
    by (simp add: analyzeScenario_totals_eq analyzeScenario_loop_body_eq s)
  have m': "totalOrig (as_scenario ?b) \<le> totalOrig (as_scenario ?a) \<and>
            totalGzip (as_scenario ?b) \<le> totalGzip (as_scenario ?a) \<and>
            totalZstd (as_scenario ?b) \<le> totalZstd (as_scenario ?a) \<and>
            totalDict (as_scenario ?b) \<le> totalDict (as_scenario ?a)"
    using m by (simp add: as_scenario_def)
  show ?thesis
    unfolding Let_def s s' using m m' by (simp add: analyzeScenario_totals_eq)
qed

theorem totals_non_decreasing_witness:
  "totals_fit ex_gzip ex_plain ex_withDict [M1, M2] \<and> (1::nat) < length [M1, M2] \<and>
   main_totals ex_gzip ex_plain ex_withDict (take 1 [M1, M2]) =
     \<lparr>totalUncompressed = 2, totals.totalGzip = 4, totals.totalZstd = 2, totalZstdDict = 4\<rparr> \<and>
   main_totals ex_gzip ex_plain ex_withDict (take (Suc 1) [M1, M2]) =
     \<lparr>totalUncompressed = 12, totals.totalGzip = 16, totals.totalZstd = 12, totalZstdDict = 6\<rparr> \<and>
   totalUncompressed (main_totals ex_gzip ex_plain ex_withDict (take 1 [M1, M2]))
     \<le> totalUncompressed (main_totals ex_gzip ex_plain ex_withDict (take (Suc 1) [M1, M2])) \<and>
   totalDict (analyzeScenario_totals ex_gzip ex_plain ex_withDict (take 1 [M1, M2]))
     \<le> totalDict (analyzeScenario_totals ex_gzip ex_plain ex_withDict (take (Suc 1) [M1, M2]))"
proof -
  have f: "totals_fit ex_gzip ex_plain ex_withDict [M1, M2]"
    by (simp add: totals_fit_def len_def ex_defs ex_gzip_def)
  have k: "(1::nat) < length [M1, M2]" by simp
  have v1: "main_totals ex_gzip ex_plain ex_withDict (take 1 [M1, M2]) =
     \<lparr>totalUncompressed = 2, totals.totalGzip = 4, totals.totalZstd = 2, totalZstdDict = 4\<rparr>"
    by (simp add: main_totals_def main_loop_body_def Let_def len_def int64_id ex_defs ex_gzip_def)
  have v2: "main_totals ex_gzip ex_plain ex_withDict (take (Suc 1) [M1, M2]) =
     \<lparr>totalUncompressed = 12, totals.totalGzip = 16, totals.totalZstd = 12, totalZstdDict = 6\<rparr>"
    by (simp add: main_totals_def main_loop_body_def Let_def len_def int64_id ex_defs ex_gzip_def)
  note t = totals_non_decreasing [OF f k, unfolded Let_def]
  from t have e: "analyzeScenario_loop_body ex_gzip ex_plain ex_withDict
        (analyzeScenario_totals ex_gzip ex_plain ex_withDict (take 1 [M1, M2])) ([M1, M2] ! 1) =
      analyzeScenario_totals ex_gzip ex_plain ex_withDict (take (Suc 1) [M1, M2])"
    by blast
  from t have "totalDict (analyzeScenario_totals ex_gzip ex_plain ex_withDict (take 1 [M1, M2]))
     \<le> totalDict (analyzeScenario_loop_body ex_gzip ex_plain ex_withDict
        (analyzeScenario_totals ex_gzip ex_plain ex_withDict (take 1 [M1, M2])) ([M1, M2] ! 1))"
    by blast
  then have d: "totalDict (analyzeScenario_totals ex_gzip ex_plain ex_withDict (take 1 [M1, M2]))
     \<le> totalDict (analyzeScenario_totals ex_gzip ex_plain ex_withDict (take (Suc 1) [M1, M2]))"
    unfolding e .
  have u: "totalUncompressed (main_totals ex_gzip ex_plain ex_withDict (take 1 [M1, M2]))
     \<le> totalUncompressed (main_totals ex_gzip ex_plain ex_withDict (take (Suc 1) [M1, M2]))"
    unfolding v1 v2 by simp
  from f k v1 v2 u d show ?thesis by blast
qed

section \<open>Properties of the codec\<close>

text \<open>
  On a miss \<^verbatim>\<open>Get\<close> returns what \<^verbatim>\<open>New\<close> builds and leaves the pool as it is; from a
  pool that holds only engines of one kind, any choice of \<^verbatim>\<open>Get\<close> yields such an engine
  and leaves such a pool.
\<close>

lemma Pool_Get_miss: "miss idle pick \<Longrightarrow> Pool_Get new idle pick = (new, idle)"
  by (auto simp: miss_def Pool_Get_def split: option.splits)

lemma list_all_remove_nth:
  "list_all P xs \<Longrightarrow> list_all P (take k xs @ drop (Suc k) xs)"
  by (auto simp: list_all_iff dest: in_set_takeD in_set_dropD)

lemma Pool_Get_all:
  assumes "list_all (\<lambda>x. x = new) idle"
  shows "fst (Pool_Get new idle pick) = new \<and>
         list_all (\<lambda>x. x = new) (snd (Pool_Get new idle pick))"
proof (cases pick)
  case None
  with assms show ?thesis by (simp add: Pool_Get_def)
next
  case (Some k)
  show ?thesis
  proof (cases "k < length idle")
    case True
    with assms have "idle ! k = new" by (simp add: list_all_length)
    with assms True Some show ?thesis
      by (simp add: Pool_Get_def list_all_remove_nth del: list_all_append)
  next
    case False
    with assms Some show ?thesis by (simp add: Pool_Get_def)
  qed
qed

text \<open>
  When the engines of a Compressor can be built, a call returns what the engine returns,
  whatever the pool holds and whichever instance \<^verbatim>\<open>Get\<close> picks, and it leaves the
  pools in order.
\<close>

lemma Compress_ok:
  assumes e: "encoderPool_New lib c = Pointer (Some enc)" and ok: "pools_ok lib c"
  shows "\<exists>c'. Compress lib c pick data = (Returned (EncodeAll lib enc data [], None), c') \<and>
              pools_ok lib c' \<and> Compressor.dict c' = Compressor.dict c"
proof -
  obtain x idle where g: "Pool_Get (encoderPool_New lib c) (Compressor.encoderPool c) pick = (x, idle)"
    by (cases "Pool_Get (encoderPool_New lib c) (Compressor.encoderPool c) pick")
  from ok have "list_all (\<lambda>x. x = encoderPool_New lib c) (Compressor.encoderPool c)"
    by (simp add: pools_ok_def)
  from Pool_Get_all [OF this, of pick] g
  have x: "x = Pointer (Some enc)" and i: "list_all (\<lambda>x. x = encoderPool_New lib c) idle"
    by (simp_all add: e)
  let ?c' = "c\<lparr>Compressor.encoderPool := Pool_Put idle (Pointer (Some enc))\<rparr>"
  have 1: "Compress lib c pick data = (Returned (EncodeAll lib enc data [], None), ?c')"
    by (simp add: Compress_def g x)
  have 2: "pools_ok lib ?c'"
    using ok i e
    by (simp add: pools_ok_def Pool_Put_def encoderPool_New_def decoderPool_New_def)
  show ?thesis using 1 2 by simp
qed

lemma Decompress_ok:
  assumes d: "decoderPool_New lib c = Pointer (Some dec)" and ok: "pools_ok lib c"
  shows "\<exists>c'. Decompress lib c pick data = (Returned (DecodeAll lib dec data []), c') \<and>
              pools_ok lib c' \<and> Compressor.dict c' = Compressor.dict c"
proof -
  obtain x idle where g: "Pool_Get (decoderPool_New lib c) (Compressor.decoderPool c) pick = (x, idle)"
    by (cases "Pool_Get (decoderPool_New lib c) (Compressor.decoderPool c) pick")
  from ok have "list_all (\<lambda>x. x = decoderPool_New lib c) (Compressor.decoderPool c)"
    by (simp add: pools_ok_def)
  from Pool_Get_all [OF this, of pick] g
  have x: "x = Pointer (Some dec)" and i: "list_all (\<lambda>x. x = decoderPool_New lib c) idle"
    by (simp_all add: d)
  let ?c' = "c\<lparr>Compressor.decoderPool := Pool_Put idle (Pointer (Some dec))\<rparr>"
  have 1: "Decompress lib c pick data = (Returned (DecodeAll lib dec data []), ?c')"
    by (simp add: Decompress_def g x)
  have 2: "pools_ok lib ?c'"
    using ok i d
    by (simp add: pools_ok_def Pool_Put_def encoderPool_New_def decoderPool_New_def)
  show ?thesis using 1 2 by simp
qed

text \<open>
  The invariant \<open>pools_ok\<close> holds of every Compressor that \<^verbatim>\<open>New\<close> returns, and
  \<^verbatim>\<open>Compress\<close> and \<^verbatim>\<open>Decompress\<close> keep it, also when they fail.
\<close>

lemma New_pools_ok: "New ReadFile opts = Inr c \<Longrightarrow> pools_ok lib c"
  by (auto simp: New_def pools_ok_def split: sum.splits)

lemma pool_New_update:
  "encoderPool_New lib (c\<lparr>Compressor.encoderPool := p\<rparr>) = encoderPool_New lib c"
  "decoderPool_New lib (c\<lparr>Compressor.encoderPool := p\<rparr>) = decoderPool_New lib c"
  "encoderPool_New lib (c\<lparr>Compressor.decoderPool := q\<rparr>) = encoderPool_New lib c"
  "decoderPool_New lib (c\<lparr>Compressor.decoderPool := q\<rparr>) = decoderPool_New lib c"
  by (simp_all add: encoderPool_New_def decoderPool_New_def)

lemma Compress_keeps_pools_ok:
  assumes "pools_ok lib c"
  shows "pools_ok lib (snd (Compress lib c pick data))"
proof -
  obtain x idle where
    g: "Pool_Get (encoderPool_New lib c) (Compressor.encoderPool c) pick = (x, idle)"
    by (cases "Pool_Get (encoderPool_New lib c) (Compressor.encoderPool c) pick")
  from assms have "list_all (\<lambda>x. x = encoderPool_New lib c) (Compressor.encoderPool c)"
    by (simp add: pools_ok_def)
  from Pool_Get_all [OF this, of pick] g
  have x: "x = encoderPool_New lib c" and i: "list_all (\<lambda>x. x = encoderPool_New lib c) idle"
    by simp_all
  have k: "pools_ok lib (c\<lparr>Compressor.encoderPool := idle\<rparr>)"
    using assms i by (simp add: pools_ok_def pool_New_update)
  have p: "pools_ok lib (c\<lparr>Compressor.encoderPool := Pool_Put idle x\<rparr>)"
    using assms i x by (auto simp: pools_ok_def pool_New_update Pool_Put_def)
  show ?thesis
  proof (cases x)
    case NilInterface
    with k show ?thesis by (simp add: Compress_def g)
  next
    case (Pointer q)
    with k p show ?thesis by (cases q) (simp_all add: Compress_def g)
  qed
qed

lemma Decompress_keeps_pools_ok:
  assumes "pools_ok lib c"
  shows "pools_ok lib (snd (Decompress lib c pick data))"
proof -
  obtain x idle where
    g: "Pool_Get (decoderPool_New lib c) (Compressor.decoderPool c) pick = (x, idle)"
    by (cases "Pool_Get (decoderPool_New lib c) (Compressor.decoderPool c) pick")
  from assms have "list_all (\<lambda>x. x = decoderPool_New lib c) (Compressor.decoderPool c)"
    by (simp add: pools_ok_def)
  from Pool_Get_all [OF this, of pick] g
  have x: "x = decoderPool_New lib c" and i: "list_all (\<lambda>x. x = decoderPool_New lib c) idle"
    by simp_all
  have k: "pools_ok lib (c\<lparr>Compressor.decoderPool := idle\<rparr>)"
    using assms i by (simp add: pools_ok_def pool_New_update)
  have p: "pools_ok lib (c\<lparr>Compressor.decoderPool := Pool_Put idle x\<rparr>)"
    using assms i x by (auto simp: pools_ok_def pool_New_update Pool_Put_def)
  show ?thesis
  proof (cases x)
    case NilInterface
    with k show ?thesis by (simp add: Decompress_def g)
  next
    case (Pointer q)
    with k p show ?thesis by (cases q) (simp_all add: Decompress_def g)
  qed
qed

text \<open>
  C1. Round trip. For every byte buffer \<open>b\<close>, the empty buffer included, and for a
  Compressor with or without a dictionary, \<^verbatim>\<open>Decompress(Compress(b))\<close> succeeds and
  returns exactly \<open>b\<close>: both calls use engines built for the dictionary of this one
  Compressor, whatever its pools hold and whichever instances are picked. The engine is
  external; it is assumed to build its encoder and its decoder for that dictionary, and
  its decoder to decode what its encoder produced from \<open>b\<close>.
\<close>

theorem Compress_Decompress_round_trip:
  assumes "encoderPool_New lib c = Pointer (Some enc)"
      and "decoderPool_New lib c = Pointer (Some dec)"
      and "pools_ok lib c"
      and "DecodeAll lib dec (EncodeAll lib enc b []) [] = (b, None)"
  shows "\<exists>compressed c1 c2.
           Compress lib c pick1 b = (Returned (compressed, None), c1) \<and>
           Decompress lib c1 pick2 compressed = (Returned (b, None), c2) \<and>
           pools_ok lib c2 \<and> Compressor.dict c2 = Compressor.dict c"
proof -
  from Compress_ok [OF assms(1) assms(3), of pick1 b]
  obtain c1 where c1: "Compress lib c pick1 b = (Returned (EncodeAll lib enc b [], None), c1)"
      "pools_ok lib c1" "Compressor.dict c1 = Compressor.dict c"
    by blast
  from c1(3) assms(2) have d1: "decoderPool_New lib c1 = Pointer (Some dec)"
    by (simp add: decoderPool_New_def)
  from Decompress_ok [OF d1 c1(2), of pick2 "EncodeAll lib enc b []"]
  obtain c2 where c2:
      "Decompress lib c1 pick2 (EncodeAll lib enc b []) =
         (Returned (DecodeAll lib dec (EncodeAll lib enc b []) []), c2)"
      "pools_ok lib c2" "Compressor.dict c2 = Compressor.dict c1"
    by blast
  from c1 c2 assms(4) show ?thesis by simp
qed


text \<open>
  \<^verbatim>\<open>New\<close> with a dictionary, and with no option: the Compressor starts with the
  dictionary it was given, or none, and with empty pools.
\<close>

lemma New_WithDictBytes:
  "New ReadFile [WithDictBytes d] = Inr \<lparr>Compressor.dict = d, Compressor.encoderPool = [], Compressor.decoderPool = []\<rparr>"
  by (simp add: New_def)

lemma New_no_options:
  "New ReadFile [] = Inr \<lparr>Compressor.dict = None, Compressor.encoderPool = [], Compressor.decoderPool = []\<rparr>"
  by (simp add: New_def)

text \<open>
  On the stand-in engine: a fresh dictionary-bound Compressor round-trips the empty
  buffer, and a dictionary-free Compressor with a used encoder in its pool round-trips
  \<open>M2\<close>.
\<close>

theorem Compress_Decompress_round_trip_witness:
  "encoderPool_New stored_zstd
     \<lparr>Compressor.dict = Some ex_trained, Compressor.encoderPool = [], Compressor.decoderPool = []\<rparr> =
     Pointer (Some (Some ex_trained)) \<and>
   decoderPool_New stored_zstd
     \<lparr>Compressor.dict = Some ex_trained, Compressor.encoderPool = [], Compressor.decoderPool = []\<rparr> =
     Pointer (Some (Some ex_trained)) \<and>
   pools_ok stored_zstd
     \<lparr>Compressor.dict = Some ex_trained, Compressor.encoderPool = [], Compressor.decoderPool = []\<rparr> \<and>
   DecodeAll stored_zstd (Some ex_trained) (EncodeAll stored_zstd (Some ex_trained) [] []) [] =
     ([], None) \<and>
   (\<exists>compressed c1 c2.
      Compress stored_zstd
        \<lparr>Compressor.dict = Some ex_trained, Compressor.encoderPool = [], Compressor.decoderPool = []\<rparr>
        None [] = (Returned (compressed, None), c1) \<and>
      Decompress stored_zstd c1 (Some 0) compressed = (Returned ([], None), c2) \<and>
      pools_ok stored_zstd c2 \<and> Compressor.dict c2 = Some ex_trained) \<and>
   (\<exists>compressed c1 c2.
      Compress stored_zstd
        \<lparr>Compressor.dict = None, Compressor.encoderPool = [Pointer (Some None)],
         Compressor.decoderPool = []\<rparr>
        (Some 0) M2 = (Returned (compressed, None), c1) \<and>
      Decompress stored_zstd c1 None compressed = (Returned (M2, None), c2) \<and>
      pools_ok stored_zstd c2 \<and> Compressor.dict c2 = None)"
proof -
  let ?c = "\<lparr>Compressor.dict = Some ex_trained, Compressor.encoderPool = [],
             Compressor.decoderPool = []\<rparr> :: (bytes option, bytes option) Compressor"
  let ?n = "\<lparr>Compressor.dict = None, Compressor.encoderPool = [Pointer (Some None)],
             Compressor.decoderPool = []\<rparr> :: (bytes option, bytes option) Compressor"
  have e: "encoderPool_New stored_zstd ?c = Pointer (Some (Some ex_trained))"
    by (simp add: encoderPool_New_def New_encoderOptions_def stored_defs ex_trained_def)
  have d: "decoderPool_New stored_zstd ?c = Pointer (Some (Some ex_trained))"
    by (simp add: decoderPool_New_def New_decoderOptions_def stored_defs ex_trained_def)
  have p: "pools_ok stored_zstd ?c" by (simp add: pools_ok_def)
  have r: "DecodeAll stored_zstd (Some ex_trained) (EncodeAll stored_zstd (Some ex_trained) [] []) [] =
     ([], None)"
    by (simp add: stored_defs ex_trained_def)
  have en: "encoderPool_New stored_zstd ?n = Pointer (Some None)"
    by (simp add: encoderPool_New_def New_encoderOptions_def stored_defs ex_trained_def)
  have dn: "decoderPool_New stored_zstd ?n = Pointer (Some None)"
    by (simp add: decoderPool_New_def New_decoderOptions_def stored_defs ex_trained_def)
  have pn: "pools_ok stored_zstd ?n" by (simp add: pools_ok_def en)
  have rn: "DecodeAll stored_zstd None (EncodeAll stored_zstd None M2 []) [] = (M2, None)"
    by (simp add: stored_defs ex_trained_def)
  note t1 = Compress_Decompress_round_trip [OF e d p r, of None "Some 0"]
  note t2 = Compress_Decompress_round_trip [OF en dn pn rn, of "Some 0" None]
  from e d p r t1 t2 show ?thesis by simp
qed

lemma failed_Returned: "failed (Returned p) = (snd p \<noteq> None)"
  by (cases p) simp

text \<open>
  What a call does on a pool miss: \<^verbatim>\<open>Get\<close> calls \<^verbatim>\<open>New\<close>, and with the engine it
  builds the call completes as it would with a pooled one. A call that does not complete
  normally on a miss has met a failure of the engine constructor (or, when decompressing,
  an error of the engine on its input).
\<close>

lemma pool_miss_builds_engine:
  "(miss (Compressor.encoderPool c) pick \<longrightarrow>
      (\<forall>enc. NewWriter lib None (New_encoderOptions (Compressor.dict c)) = Inr enc \<longrightarrow>
         Compress lib c pick data =
           (Returned (EncodeAll lib enc data [], None),
            c\<lparr>Compressor.encoderPool := Pointer (Some enc) # Compressor.encoderPool c\<rparr>)) \<and>
      (failed (fst (Compress lib c pick data)) \<longrightarrow>
         isl (NewWriter lib None (New_encoderOptions (Compressor.dict c))))) \<and>
   (miss (Compressor.decoderPool c) pick \<longrightarrow>
      (\<forall>dec. NewReader lib None (New_decoderOptions (Compressor.dict c)) = Inr dec \<longrightarrow>
         Decompress lib c pick data =
           (Returned (DecodeAll lib dec data []),
            c\<lparr>Compressor.decoderPool := Pointer (Some dec) # Compressor.decoderPool c\<rparr>)) \<and>
      (failed (fst (Decompress lib c pick data)) \<longrightarrow>
         (case NewReader lib None (New_decoderOptions (Compressor.dict c)) of
            Inl err \<Rightarrow> True
          | Inr dec \<Rightarrow> snd (DecodeAll lib dec data []) \<noteq> None))) \<and>
   (miss (encoderPool z) pick \<longrightarrow>
      (\<forall>enc. NewWriter lib None (initPools_encoderOptions (dict z)) = Inr enc \<longrightarrow>
         Zstd_Compress lib z pick w =
           (Returned (Some (pooledEncoder (Encoder_Reset lib enc w)), None), z)) \<and>
      (failed (fst (Zstd_Compress lib z pick w)) \<longrightarrow>
         isl (NewWriter lib None (initPools_encoderOptions (dict z))))) \<and>
   (miss (decoderPool z) pick \<longrightarrow>
      (\<forall>dec. NewReader lib None (initPools_decoderOptions (dict z)) = Inr dec \<longrightarrow>
         Zstd_Decompress lib z pick r =
           (case Decoder_Reset lib dec r of
              (dec', None) \<Rightarrow> (Returned (Some (pooledDecoder dec'), None), z)
            | (dec', Some err) \<Rightarrow>
                (Returned (None, Some err),
                 z\<lparr>decoderPool := Pointer (Some dec') # decoderPool z\<rparr>))) \<and>
      (failed (fst (Zstd_Decompress lib z pick r)) \<longrightarrow>
         (case NewReader lib None (initPools_decoderOptions (dict z)) of
            Inl err \<Rightarrow> True
          | Inr dec \<Rightarrow> snd (Decoder_Reset lib dec r) \<noteq> None)))"
proof (intro conjI impI)
  assume m: "miss (Compressor.encoderPool c) pick"
  show "\<forall>enc. NewWriter lib None (New_encoderOptions (Compressor.dict c)) = Inr enc \<longrightarrow>
         Compress lib c pick data =
           (Returned (EncodeAll lib enc data [], None),
            c\<lparr>Compressor.encoderPool := Pointer (Some enc) # Compressor.encoderPool c\<rparr>)"
    by (simp add: Compress_def Pool_Get_miss [OF m] encoderPool_New_def Pool_Put_def)
  assume "failed (fst (Compress lib c pick data))"
  then show "isl (NewWriter lib None (New_encoderOptions (Compressor.dict c)))"
    by (simp add: Compress_def Pool_Get_miss [OF m] encoderPool_New_def split: sum.splits)
next
  assume m: "miss (Compressor.decoderPool c) pick"
  show "\<forall>dec. NewReader lib None (New_decoderOptions (Compressor.dict c)) = Inr dec \<longrightarrow>
         Decompress lib c pick data =
           (Returned (DecodeAll lib dec data []),
            c\<lparr>Compressor.decoderPool := Pointer (Some dec) # Compressor.decoderPool c\<rparr>)"
    by (simp add: Decompress_def Pool_Get_miss [OF m] decoderPool_New_def Pool_Put_def)
  assume "failed (fst (Decompress lib c pick data))"
  then show "case NewReader lib None (New_decoderOptions (Compressor.dict c)) of
            Inl err \<Rightarrow> True
          | Inr dec \<Rightarrow> snd (DecodeAll lib dec data []) \<noteq> None"
    by (cases "NewReader lib None (New_decoderOptions (Compressor.dict c))")
       (simp_all add: Decompress_def Pool_Get_miss [OF m] decoderPool_New_def failed_Returned)
next
  assume m: "miss (encoderPool z) pick"
  show "\<forall>enc. NewWriter lib None (initPools_encoderOptions (dict z)) = Inr enc \<longrightarrow>
         Zstd_Compress lib z pick w =
           (Returned (Some (pooledEncoder (Encoder_Reset lib enc w)), None), z)"
    by (simp add: Zstd_Compress_def Pool_Get_miss [OF m] Zstd_encoderPool_New_def)
  assume "failed (fst (Zstd_Compress lib z pick w))"
  then show "isl (NewWriter lib None (initPools_encoderOptions (dict z)))"
    by (simp add: Zstd_Compress_def Pool_Get_miss [OF m] Zstd_encoderPool_New_def
        split: sum.splits)
next
  assume m: "miss (decoderPool z) pick"
  show "\<forall>dec. NewReader lib None (initPools_decoderOptions (dict z)) = Inr dec \<longrightarrow>
         Zstd_Decompress lib z pick r =
           (case Decoder_Reset lib dec r of
              (dec', None) \<Rightarrow> (Returned (Some (pooledDecoder dec'), None), z)
            | (dec', Some err) \<Rightarrow>
                (Returned (None, Some err),
                 z\<lparr>decoderPool := Pointer (Some dec') # decoderPool z\<rparr>))"
    by (simp add: Zstd_Decompress_def Pool_Get_miss [OF m] Zstd_decoderPool_New_def Pool_Put_def
        split: prod.splits option.splits)
  assume "failed (fst (Zstd_Decompress lib z pick r))"
  then show "case NewReader lib None (initPools_decoderOptions (dict z)) of
            Inl err \<Rightarrow> True
          | Inr dec \<Rightarrow> snd (Decoder_Reset lib dec r) \<noteq> None"
    by (cases "NewReader lib None (initPools_decoderOptions (dict z))")
       (auto simp: Zstd_Decompress_def Pool_Get_miss [OF m] Zstd_decoderPool_New_def
             split: prod.splits option.splits)
qed

text \<open>
  C2. When the pool has no instance to hand out, a call builds a new engine and, with
  it, completes normally: a miss is never an error of its own (\<open>pool_miss_builds_engine\<close>).
  The code departs from the claim where the constructor fails. It prepares an error for
  that case (\<^verbatim>\<open>return nil, errors.New("failed to get encoder from pool")\<close> in the
  Compressor, \<^verbatim>\<open>return nil, err\<close> behind the fallback of the gRPC compressor), but
  the pool's \<^verbatim>\<open>New\<close> then returns the nil interface, and the type assertion
  \<^verbatim>\<open>Get().(*zstd.Encoder)\<close> panics before the test \<^verbatim>\<open>enc == nil\<close> is reached: on a
  miss with a failing constructor each of the four calls panics, and on a miss the two
  compress calls never return an error at all.
\<close>

theorem construction_failure_panics:
  "(miss (Compressor.encoderPool c) pick \<and>
    isl (NewWriter lib None (New_encoderOptions (Compressor.dict c))) \<longrightarrow>
      Compress lib c pick data = (Panicked, c)) \<and>
   (miss (Compressor.decoderPool c) pick \<and>
    isl (NewReader lib None (New_decoderOptions (Compressor.dict c))) \<longrightarrow>
      Decompress lib c pick data = (Panicked, c)) \<and>
   (miss (encoderPool z) pick \<and>
    isl (NewWriter lib None (initPools_encoderOptions (dict z))) \<longrightarrow>
      Zstd_Compress lib z pick w = (Panicked, z)) \<and>
   (miss (decoderPool z) pick \<and>
    isl (NewReader lib None (initPools_decoderOptions (dict z))) \<longrightarrow>
      Zstd_Decompress lib z pick r = (Panicked, z)) \<and>
   (miss (Compressor.encoderPool c) pick \<longrightarrow>
      fst (Compress lib c pick data) = Panicked \<or>
      (\<exists>compressed. fst (Compress lib c pick data) = Returned (compressed, None))) \<and>
   (miss (encoderPool z) pick \<longrightarrow>
      fst (Zstd_Compress lib z pick w) = Panicked \<or>
      (\<exists>stream. fst (Zstd_Compress lib z pick w) = Returned (stream, None)))"
proof (intro conjI impI)
  assume "miss (Compressor.encoderPool c) pick \<and>
    isl (NewWriter lib None (New_encoderOptions (Compressor.dict c)))"
  then show "Compress lib c pick data = (Panicked, c)"
    by (cases "NewWriter lib None (New_encoderOptions (Compressor.dict c))")
       (simp_all add: Compress_def Pool_Get_miss encoderPool_New_def)
next
  assume "miss (Compressor.decoderPool c) pick \<and>
    isl (NewReader lib None (New_decoderOptions (Compressor.dict c)))"
  then show "Decompress lib c pick data = (Panicked, c)"
    by (cases "NewReader lib None (New_decoderOptions (Compressor.dict c))")
       (simp_all add: Decompress_def Pool_Get_miss decoderPool_New_def)
next
  assume "miss (encoderPool z) pick \<and>
    isl (NewWriter lib None (initPools_encoderOptions (dict z)))"
  then show "Zstd_Compress lib z pick w = (Panicked, z)"
    by (cases "NewWriter lib None (initPools_encoderOptions (dict z))")
       (simp_all add: Zstd_Compress_def Pool_Get_miss Zstd_encoderPool_New_def)
next
  assume "miss (decoderPool z) pick \<and>
    isl (NewReader lib None (initPools_decoderOptions (dict z)))"
  then show "Zstd_Decompress lib z pick r = (Panicked, z)"
    by (cases "NewReader lib None (initPools_decoderOptions (dict z))")
       (simp_all add: Zstd_Decompress_def Pool_Get_miss Zstd_decoderPool_New_def)
next
  assume m: "miss (Compressor.encoderPool c) pick"
  show "fst (Compress lib c pick data) = Panicked \<or>
      (\<exists>compressed. fst (Compress lib c pick data) = Returned (compressed, None))"
    by (cases "NewWriter lib None (New_encoderOptions (Compressor.dict c))")
       (simp_all add: Compress_def Pool_Get_miss [OF m] encoderPool_New_def)
next
  assume m: "miss (encoderPool z) pick"
  show "fst (Zstd_Compress lib z pick w) = Panicked \<or>
      (\<exists>stream. fst (Zstd_Compress lib z pick w) = Returned (stream, None))"
    by (cases "NewWriter lib None (initPools_encoderOptions (dict z))")
       (simp_all add: Zstd_Compress_def Pool_Get_miss [OF m] Zstd_encoderPool_New_def)
qed

text \<open>
  On the stand-in engine, with a dictionary of three bytes that its constructors refuse:
  \<^verbatim>\<open>New\<close> accepts the dictionary, since it builds no engine, and the first call of
  each of the four operations panics.
\<close>

theorem construction_failure_panics_witness:
  "New (\<lambda>path. Inl (Error ''no such file'')) [WithDictBytes (Some ex_malformed)] =
     Inr \<lparr>Compressor.dict = Some ex_malformed, Compressor.encoderPool = [] :: bytes option any list,
          Compressor.decoderPool = [] :: bytes option any list\<rparr> \<and>
   miss ([] :: bytes option any list) None \<and>
   isl (NewWriter stored_zstd None (New_encoderOptions (Some ex_malformed))) \<and>
   isl (NewReader stored_zstd None (New_decoderOptions (Some ex_malformed))) \<and>
   isl (NewWriter stored_zstd None (initPools_encoderOptions (Some ex_malformed))) \<and>
   isl (NewReader stored_zstd None (initPools_decoderOptions (Some ex_malformed))) \<and>
   Compress stored_zstd
     \<lparr>Compressor.dict = Some ex_malformed, Compressor.encoderPool = [], Compressor.decoderPool = []\<rparr>
     None M1 =
     (Panicked,
      \<lparr>Compressor.dict = Some ex_malformed, Compressor.encoderPool = [], Compressor.decoderPool = []\<rparr>) \<and>
   Decompress stored_zstd
     \<lparr>Compressor.dict = Some ex_malformed, Compressor.encoderPool = [], Compressor.decoderPool = []\<rparr>
     None M1 =
     (Panicked,
      \<lparr>Compressor.dict = Some ex_malformed, Compressor.encoderPool = [], Compressor.decoderPool = []\<rparr>) \<and>
   Zstd_Compress stored_zstd (NewZstdDict (Some ex_malformed)) None () =
     (Panicked, NewZstdDict (Some ex_malformed)) \<and>
   Zstd_Decompress stored_zstd (NewZstdDict (Some ex_malformed)) None () =
     (Panicked, NewZstdDict (Some ex_malformed))"
proof -
  let ?c = "\<lparr>Compressor.dict = Some ex_malformed, Compressor.encoderPool = [],
             Compressor.decoderPool = []\<rparr> :: (bytes option, bytes option) Compressor"
  let ?z = "NewZstdDict (Some ex_malformed) :: (bytes option, bytes option) Zstd"
  have n: "New (\<lambda>path. Inl (Error ''no such file'')) [WithDictBytes (Some ex_malformed)] = Inr ?c"
    by (simp add: New_def)
  have m: "miss ([] :: bytes option any list) None" by (simp add: miss_def)
  have e: "isl (NewWriter stored_zstd None (New_encoderOptions (Some ex_malformed)))"
    by (simp add: New_encoderOptions_def stored_defs ex_malformed_def)
  have d: "isl (NewReader stored_zstd None (New_decoderOptions (Some ex_malformed)))"
    by (simp add: New_decoderOptions_def stored_defs ex_malformed_def)
  have ze: "isl (NewWriter stored_zstd None (initPools_encoderOptions (Some ex_malformed)))"
    by (simp add: initPools_encoderOptions_def stored_defs ex_malformed_def)
  have zd: "isl (NewReader stored_zstd None (initPools_decoderOptions (Some ex_malformed)))"
    by (simp add: initPools_decoderOptions_def stored_defs ex_malformed_def)
  note t = construction_failure_panics
    [where c = ?c and z = ?z and pick = None and lib = stored_zstd and data = M1
       and w = "()" and r = "()"]
  from t m e have 1: "Compress stored_zstd ?c None M1 = (Panicked, ?c)" by simp
  from t m d have 2: "Decompress stored_zstd ?c None M1 = (Panicked, ?c)" by simp
  from t m ze have 3: "Zstd_Compress stored_zstd ?z None () = (Panicked, ?z)"
    by (simp add: NewZstdDict_def)
  from t m zd have 4: "Zstd_Decompress stored_zstd ?z None () = (Panicked, ?z)"
    by (simp add: NewZstdDict_def)
  from n m e d ze zd 1 2 3 4 show ?thesis by blast
qed

text \<open>
  C8. A \<^verbatim>\<open>Read\<close> of a pooled streaming decoder returns the underlying decoder to the
  pool if and only if that read signals end-of-data (\<^verbatim>\<open>io.EOF\<close>); after any other
  read the pool is unchanged and the instance stays with the caller. The bytes and the
  error of the engine's \<^verbatim>\<open>Read\<close> are returned as they are.
\<close>

theorem pooledDecoder_Read_returns_on_EOF:
  "(case pooledDecoder_Read lib dec pool n of
      ((read, err), dec', pool') \<Rightarrow>
        (dec', read, err) = Decoder_Read lib dec n \<and>
        (err = Some EOF) = (pool' = Pointer (Some dec') # pool) \<and>
        (err \<noteq> Some EOF) = (pool' = pool))"
  by (simp add: pooledDecoder_Read_def Pool_Put_def split: prod.splits)

section \<open>Properties of the encoder configuration\<close>



text \<open>
  The hypothesis on the engine cannot be dropped: against two behaviours of the engine
  that encode differently, the same call on the same Compressor returns different bytes.
\<close>

lemma engine_determinism_needed:
  "NewWriter varying_zstd = NewWriter stored_zstd \<and>
   fst (Compress stored_zstd
     \<lparr>Compressor.dict = None, Compressor.encoderPool = [], Compressor.decoderPool = []\<rparr> None M1) =
     Returned ([0, 1, 2], None) \<and>
   fst (Compress varying_zstd
     \<lparr>Compressor.dict = None, Compressor.encoderPool = [], Compressor.decoderPool = []\<rparr> None M1) =
     Returned ([0, 2, 1], None)"
  by (simp add: varying_zstd_def Compress_def Pool_Get_def Pool_Put_def encoderPool_New_def
      New_encoderOptions_def stored_defs M1_def)


section \<open>Properties of dictionary training\<close>









end
